theory Spec2Isabelle
  imports Complex_Main "HOL-Library.AList"
begin

section \<open>Python values and the operations the copier uses on them\<close>

text \<open>
  The copier handles parsed JSON documents (the results of \<open>response.json()\<close>) and builds
  JSON documents for its requests. A JSON object is an association list: lookup takes the
  first binding of a key, and a key that is stored again keeps its position, as in a
  Python dict. A Python \<open>str\<close> is a \<open>string\<close>; a character stands for a code point
  below 256. \<open>JFloat q\<close> is the float of value \<open>q\<close>: the documents of the model are the
  values \<open>response.json()\<close> has already produced, so rounding to a double has taken place
  before they enter, and \<open>json.dumps\<close> writes a float back as the same value.
\<close>

datatype json =
    JNull
  | JBool bool
  | JInt int
  | JFloat rat
  | JStr string
  | JArr "json list"
  | JObj "(string \<times> json) list"

text \<open>
  The HTTP response object of the \<open>requests\<close> library, as far as the copier reads it:
  \<open>status_code\<close>, \<open>reason\<close> and \<open>url\<close> (used in the message of \<open>raise_for_status\<close>),
  \<open>text\<close>, and the result of \<open>json()\<close> (\<open>None\<close> when the body is not JSON, where
  \<open>json()\<close> raises).
\<close>

record response =
  status_code :: int
  reason :: string
  resp_url :: string
  resp_text :: string
  resp_json :: "json option"

text \<open>
  The exceptions that can arise in the copier, each with the data its message is built
  from. \<open>ConnectionError\<close> stands for the exceptions the transport itself raises
  (connection refused, timeout, ...): they are \<open>RequestException\<close>s created without a
  response. \<open>HTTPError\<close> is raised by \<open>raise_for_status\<close> and carries the response.
  \<open>JSONDecodeError\<close> is the \<open>RequestException\<close> that \<open>response.json()\<close> raises.
\<close>

datatype exn =
    ConnectionError string
  | HTTPError response
  | JSONDecodeError
  | KeyError string
  | TypeError string
  | AttributeError string
  | ValueError string

definition squote :: string where
  "squote = [CHR 0x27]"

definition nl :: string where
  "nl = [CHR 0x0A]"

text \<open>The arrow U+2192 of the summary text, as its three UTF-8 bytes.\<close>

definition arrow :: string where
  "arrow = [CHR 0xE2, CHR 0x86, CHR 0x92]"

text \<open>Decimal rendering of integers: \<open>str(n)\<close>, \<open>format(n, ',')\<close> and zero padding.\<close>

fun str_nat :: "nat \<Rightarrow> string" where
  "str_nat n = (if n < 10 then [char_of (48 + n)]
                else str_nat (n div 10) @ [char_of (48 + n mod 10)])"

declare str_nat.simps [simp del]

definition str_int :: "int \<Rightarrow> string" where
  "str_int i = (if i < 0 then ''-'' @ str_nat (nat (- i)) else str_nat (nat i))"

fun commas_rev :: "string \<Rightarrow> string" where
  "commas_rev (a # b # c # d # ds) = a # b # c # CHR '','' # commas_rev (d # ds)"
| "commas_rev ds = ds"

definition fmt_commas :: "int \<Rightarrow> string" where
  "fmt_commas i = (if i < 0 then ''-'' else []) @ rev (commas_rev (rev (str_nat (nat \<bar>i\<bar>))))"

definition zfill :: "nat \<Rightarrow> string \<Rightarrow> string" where
  "zfill k s = replicate (k - length s) CHR ''0'' @ s"

text \<open>
  \<open>str(timedelta)\<close>. A \<open>datetime\<close> is modelled as its number of microseconds on the time
  line, a \<open>timedelta\<close> as a number of microseconds; Python normalises a \<open>timedelta\<close> to
  days (of either sign), seconds in \<open>[0, 86400)\<close> and microseconds in \<open>[0, 10^6)\<close>.
\<close>

definition str_timedelta :: "int \<Rightarrow> string" where
  "str_timedelta us =
     (let days = us div 86400000000;
          r = us mod 86400000000;
          seconds = r div 1000000;
          micro = r mod 1000000;
          ss = seconds mod 60;
          mm = (seconds div 60) mod 60;
          hh = (seconds div 60) div 60;
          s = str_int hh @ '':'' @ zfill 2 (str_int mm) @ '':'' @ zfill 2 (str_int ss);
          s1 = (if days \<noteq> 0
                then str_int days @ '' day'' @ (if \<bar>days\<bar> \<noteq> 1 then ''s'' else []) @ '', '' @ s
                else s)
      in if micro \<noteq> 0 then s1 @ ''.'' @ zfill 6 (str_int micro) else s1)"

fun py_join :: "string \<Rightarrow> string list \<Rightarrow> string" where
  "py_join sep [] = []"
| "py_join sep [x] = x"
| "py_join sep (x # y # ys) = x @ sep @ py_join sep (y # ys)"

text \<open>
  \<open>repr\<close> of a string. The quotes are single, unless the string holds a single quote
  and no double quote. The quote in use and the backslash are escaped, tab, newline and
  carriage return are written \<open>\t\<close>, \<open>\n\<close>, \<open>\r\<close>, and the other characters that are not
  printable (below 32, 127 to 160, 173) are written \<open>\xhh\<close>.
\<close>

definition hex_digit :: "nat \<Rightarrow> char" where
  "hex_digit n = ''0123456789abcdef'' ! n"

definition repr_char :: "char \<Rightarrow> char \<Rightarrow> string" where
  "repr_char q ch =
     (let n = (of_char ch :: nat) in
      if ch = q \<or> ch = CHR 0x5C then [CHR 0x5C, ch]
      else if n = 9 then [CHR 0x5C, CHR ''t'']
      else if n = 10 then [CHR 0x5C, CHR ''n'']
      else if n = 13 then [CHR 0x5C, CHR ''r'']
      else if n < 32 \<or> (127 \<le> n \<and> n \<le> 160) \<or> n = 173
        then [CHR 0x5C, CHR ''x'', hex_digit (n div 16), hex_digit (n mod 16)]
      else [ch])"

definition py_repr :: "string \<Rightarrow> string" where
  "py_repr s =
     (let q = (if CHR 0x27 \<in> set s \<and> CHR 0x22 \<notin> set s then CHR 0x22 else CHR 0x27)
      in [q] @ concat (map (repr_char q) s) @ [q])"

text \<open>
  \<open>str(e)\<close>. The message of a \<open>KeyError\<close> is the \<open>repr\<close> of the key; the message of an
  \<open>HTTPError\<close> is the one \<open>raise_for_status\<close> builds; the other exceptions carry their
  message.
\<close>

definition http_error_msg :: "response \<Rightarrow> string" where
  "http_error_msg r =
     str_int (status_code r)
       @ (if status_code r < 500 then '' Client Error: '' else '' Server Error: '')
       @ reason r @ '' for url: '' @ resp_url r"

fun exn_str :: "exn \<Rightarrow> string" where
  "exn_str (ConnectionError m) = m"
| "exn_str (HTTPError r) = http_error_msg r"
| "exn_str JSONDecodeError = ''Expecting value: line 1 column 1 (char 0)''"
| "exn_str (KeyError k) = py_repr k"
| "exn_str (TypeError m) = m"
| "exn_str (AttributeError m) = m"
| "exn_str (ValueError m) = m"

text \<open>Truth value of a parsed JSON value, as \<open>if x:\<close> and \<open>while x:\<close> test it.\<close>

fun py_truthy :: "json \<Rightarrow> bool" where
  "py_truthy JNull = False"
| "py_truthy (JBool b) = b"
| "py_truthy (JInt i) = (i \<noteq> 0)"
| "py_truthy (JFloat q) = (q \<noteq> 0)"
| "py_truthy (JStr s) = (s \<noteq> [])"
| "py_truthy (JArr xs) = (xs \<noteq> [])"
| "py_truthy (JObj kvs) = (kvs \<noteq> [])"

text \<open>The name of the Python type of a parsed JSON value, as error messages print it.\<close>

fun type_name :: "json \<Rightarrow> string" where
  "type_name JNull = ''NoneType''"
| "type_name (JBool b) = ''bool''"
| "type_name (JInt i) = ''int''"
| "type_name (JFloat q) = ''float''"
| "type_name (JStr s) = ''str''"
| "type_name (JArr xs) = ''list''"
| "type_name (JObj kvs) = ''dict''"

text \<open>\<open>d[key]\<close> with a string key: \<open>KeyError\<close> on a dict without the key, \<open>TypeError\<close> on
  every other value, with the message of CPython 3.11 for the type of the value.\<close>

fun py_getitem :: "json \<Rightarrow> string \<Rightarrow> exn + json" where
  "py_getitem (JObj kvs) k = (case map_of kvs k of None \<Rightarrow> Inl (KeyError k) | Some v \<Rightarrow> Inr v)"
| "py_getitem (JArr xs) k = Inl (TypeError ''list indices must be integers or slices, not str'')"
| "py_getitem (JStr s) k =
     Inl (TypeError (''string indices must be integers, not '' @ squote @ ''str'' @ squote))"
| "py_getitem v k =
     Inl (TypeError (squote @ type_name v @ squote @ '' object is not subscriptable''))"

text \<open>\<open>d.get(key, default)\<close>: only a dict has the method.\<close>

fun py_get :: "json \<Rightarrow> string \<Rightarrow> json \<Rightarrow> exn + json" where
  "py_get (JObj kvs) k dflt = (case map_of kvs k of None \<Rightarrow> Inr dflt | Some v \<Rightarrow> Inr v)"
| "py_get v k dflt =
     Inl (AttributeError (squote @ type_name v @ squote @ '' object has no attribute ''
                          @ squote @ ''get'' @ squote))"

text \<open>\<open>for x in v\<close>: the elements of a list, the keys of a dict, the characters of a
  string; other values are not iterable.\<close>

fun py_iter :: "json \<Rightarrow> exn + json list" where
  "py_iter (JArr xs) = Inr xs"
| "py_iter (JObj kvs) = Inr (map (\<lambda>kv. JStr (fst kv)) kvs)"
| "py_iter (JStr s) = Inr (map (\<lambda>c. JStr [c]) s)"
| "py_iter v = Inl (TypeError (squote @ type_name v @ squote @ '' object is not iterable''))"

fun py_len :: "json \<Rightarrow> exn + int" where
  "py_len (JArr xs) = Inr (int (length xs))"
| "py_len (JObj kvs) = Inr (int (length kvs))"
| "py_len (JStr s) = Inr (int (length s))"
| "py_len v = Inl (TypeError (''object of type '' @ squote @ type_name v @ squote @ '' has no len()''))"

text \<open>\<open>str.strip()\<close>, \<open>str.split(sep)\<close> with a one-character separator.\<close>

definition is_space :: "char \<Rightarrow> bool" where
  "is_space c = ((of_char c :: nat) \<in> {9, 10, 11, 12, 13, 28, 29, 30, 31, 32, 133, 160})"

definition py_strip :: "string \<Rightarrow> string" where
  "py_strip s = rev (dropWhile is_space (rev (dropWhile is_space s)))"

fun split_on :: "char \<Rightarrow> string \<Rightarrow> string list" where
  "split_on c [] = [[]]"
| "split_on c (x # xs) =
     (if x = c then [] # split_on c xs
      else (case split_on c xs of [] \<Rightarrow> [[x]] | w # ws \<Rightarrow> (x # w) # ws))"

section \<open>CopyStatistics\<close>

record copy_statistics =
  successful_copies :: "(string \<times> string \<times> int) list"
  failed_copies :: "(string \<times> string \<times> string) list"
  total_documents :: int
  start_time :: "int option"
  end_time :: "int option"

definition init_statistics :: copy_statistics where
  "init_statistics =
     \<lparr>successful_copies = [], failed_copies = [], total_documents = 0,
      start_time = None, end_time = None\<rparr>"

definition add_success :: "string \<Rightarrow> string \<Rightarrow> int \<Rightarrow> copy_statistics \<Rightarrow> copy_statistics" where
  "add_success source target doc_count st =
     st\<lparr>successful_copies := successful_copies st @ [(source, target, doc_count)],
        total_documents := total_documents st + doc_count\<rparr>"

definition add_failure :: "string \<Rightarrow> string \<Rightarrow> string \<Rightarrow> copy_statistics \<Rightarrow> copy_statistics" where
  "add_failure source target error st =
     st\<lparr>failed_copies := failed_copies st @ [(source, target, error)]\<rparr>"

text \<open>\<open>start\<close> and \<open>finish\<close> read the clock; the value read is the argument \<open>now\<close>.\<close>

definition start :: "int \<Rightarrow> copy_statistics \<Rightarrow> copy_statistics" where
  "start now st = st\<lparr>start_time := Some now\<rparr>"

definition finish :: "int \<Rightarrow> copy_statistics \<Rightarrow> copy_statistics" where
  "finish now st = st\<lparr>end_time := Some now\<rparr>"

definition success_line :: "string \<times> string \<times> int \<Rightarrow> string" where
  "success_line x =
     (case x of (source, target, n) \<Rightarrow>
        ''  - '' @ source @ '' '' @ arrow @ '' '' @ target @ '' ('' @ fmt_commas n @ '' documents)'')"

definition failure_lines :: "string \<times> string \<times> string \<Rightarrow> string list" where
  "failure_lines x =
     (case x of (source, target, error) \<Rightarrow>
        [''  - '' @ source @ '' '' @ arrow @ '' '' @ target, ''    Error: '' @ error])"

definition summary_lines :: "int \<Rightarrow> copy_statistics \<Rightarrow> string list" where
  "summary_lines duration st =
     [nl @ ''Copy Operation Summary:'',
      ''Duration: '' @ str_timedelta duration,
      ''Total Documents Copied: '' @ fmt_commas (total_documents st),
      ''Successful Copies: '' @ str_nat (length (successful_copies st)),
      ''Failed Copies: '' @ str_nat (length (failed_copies st))]
     @ (if successful_copies st \<noteq> []
        then (nl @ ''Successful Operations:'') # map success_line (successful_copies st)
        else [])
     @ (if failed_copies st \<noteq> []
        then (nl @ ''Failed Operations:'') # concat (map failure_lines (failed_copies st))
        else [])"

text \<open>
  \<open>summary\<close> first computes \<open>self.end_time - self.start_time\<close>; both fields are \<open>None\<close>
  until \<open>start\<close> and \<open>finish\<close> have run, and subtracting with \<open>None\<close> raises \<open>TypeError\<close>.
\<close>

definition summary :: "copy_statistics \<Rightarrow> exn + string" where
  "summary st =
     (case end_time st of
        None \<Rightarrow> Inl (TypeError ''unsupported operand type(s) for -'')
      | Some e \<Rightarrow>
          (case start_time st of
             None \<Rightarrow> Inl (TypeError ''unsupported operand type(s) for -'')
           | Some s \<Rightarrow> Inr (py_join nl (summary_lines (e - s) st))))"

text \<open>The calls a client can make on the collector, and a sequence of them applied in order.\<close>

datatype stat_op =
    AddSuccess string string int
  | AddFailure string string string
  | Start int
  | Finish int

fun apply_stat_op :: "copy_statistics \<Rightarrow> stat_op \<Rightarrow> copy_statistics" where
  "apply_stat_op st (AddSuccess s t n) = add_success s t n st"
| "apply_stat_op st (AddFailure s t e) = add_failure s t e st"
| "apply_stat_op st (Start now) = start now st"
| "apply_stat_op st (Finish now) = finish now st"

definition apply_stat_ops :: "stat_op list \<Rightarrow> copy_statistics" where
  "apply_stat_ops ops = foldl apply_stat_op init_statistics ops"

text \<open>The successes a sequence of calls asks to record: its \<open>add_success\<close> calls.\<close>

fun successes_of :: "stat_op list \<Rightarrow> (string \<times> string \<times> int) list" where
  "successes_of [] = []"
| "successes_of (AddSuccess s t n # ops) = (s, t, n) # successes_of ops"
| "successes_of (_ # ops) = successes_of ops"

section \<open>parse_index_mapping\<close>

text \<open>
  One entry of the comma-separated list. \<open>source, target = index_pair.strip().split(':')\<close>
  raises \<open>ValueError\<close> unless the split gives exactly two parts.
\<close>

definition parse_pair :: "string \<Rightarrow> exn + (string \<times> string)" where
  "parse_pair index_pair =
     (if CHR '':'' \<in> set index_pair
      then (case split_on CHR '':'' (py_strip index_pair) of
              [source, target] \<Rightarrow> Inr (py_strip source, py_strip target)
            | _ \<Rightarrow> Inl (ValueError ''too many values to unpack (expected 2)''))
      else Inr (py_strip index_pair, py_strip index_pair))"

fun parse_loop :: "string list \<Rightarrow> (string \<times> string) list \<Rightarrow> exn + (string \<times> string) list" where
  "parse_loop [] index_map = Inr index_map"
| "parse_loop (index_pair # rest) index_map =
     (case parse_pair index_pair of
        Inl e \<Rightarrow> Inl e
      | Inr (source, target) \<Rightarrow> parse_loop rest (AList.update source target index_map))"

definition parse_index_mapping :: "string \<Rightarrow> exn + (string \<times> string) list" where
  "parse_index_mapping indices_str =
     (if indices_str = [] then Inr []
      else parse_loop (split_on CHR '','' indices_str) [])"

section \<open>The HTTP transport\<close>

text \<open>
  A request as the copier hands it to \<open>requests.get\<close>, \<open>put\<close>, \<open>post\<close> or \<open>delete\<close>:
  method, URL, credentials, headers and body. A body passed as \<open>json=\<close> is a JSON
  document; the bulk body passed as \<open>data=\<close> is a text of lines, each the \<open>json.dumps\<close>
  of a document, and is kept as the list of these documents.
\<close>

datatype http_method = GET | PUT | POST | DELETE

datatype payload = NoBody | JsonBody json | DataBody "json list"

record request =
  meth :: http_method
  url :: string
  auth :: "string \<times> string"
  headers :: "(string \<times> string) list"
  payload :: payload

text \<open>
  The two clusters are the environment. What they answer is given by a script: the
  replies to the requests still to come, in order. A reply is either an exception raised
  by the transport or a response; a request made after the script has run out finds
  nobody answering. Every request is recorded with its reply, so that properties of a run
  can be read off the record. Calls of \<open>print\<close> and of the logger only write to the
  console and the log file and are left out.
\<close>

datatype reply = Raises string | Responds response

record world =
  script :: "reply list"
  exchanges :: "(request \<times> reply) list"

definition send :: "request \<Rightarrow> world \<Rightarrow> (exn + response) \<times> world" where
  "send rq w =
     (case script w of
        [] \<Rightarrow>
          (Inl (ConnectionError ''no reply''),
           w\<lparr>exchanges := exchanges w @ [(rq, Raises ''no reply'')]\<rparr>)
      | r # rs \<Rightarrow>
          (case r of Raises m \<Rightarrow> Inl (ConnectionError m) | Responds resp \<Rightarrow> Inr resp,
           \<lparr>script = rs, exchanges = exchanges w @ [(rq, r)]\<rparr>))"

text \<open>\<open>Response.raise_for_status\<close> raises \<open>HTTPError\<close> for the statuses 400 to 599.\<close>

definition raise_for_status :: "response \<Rightarrow> exn + unit" where
  "raise_for_status r =
     (if 400 \<le> status_code r \<and> status_code r < 600 then Inl (HTTPError r) else Inr ())"

definition response_json :: "response \<Rightarrow> exn + json" where
  "response_json r = (case resp_json r of None \<Rightarrow> Inl JSONDecodeError | Some j \<Rightarrow> Inr j)"

section \<open>ElasticsearchCopier\<close>

record copier =
  source_host :: string
  dest_host :: string
  source_auth :: "string \<times> string"
  dest_auth :: "string \<times> string"
  batch_size :: int
  total_fields_limit :: "int option"

definition json_headers :: "(string \<times> string) list" where
  "json_headers = [(''Content-Type'', ''application/json'')]"

subsection \<open>get_source_index_info\<close>

definition settings_request :: "copier \<Rightarrow> string \<Rightarrow> request" where
  "settings_request c index_name =
     \<lparr>meth = GET, url = source_host c @ ''/'' @ index_name @ ''/_settings'',
      auth = source_auth c, headers = [], payload = NoBody\<rparr>"

definition mappings_request :: "copier \<Rightarrow> string \<Rightarrow> request" where
  "mappings_request c index_name =
     \<lparr>meth = GET, url = source_host c @ ''/'' @ index_name @ ''/_mapping'',
      auth = source_auth c, headers = [], payload = NoBody\<rparr>"

text \<open>\<open>response.json()[index_name][key]\<close>\<close>

definition index_part :: "response \<Rightarrow> string \<Rightarrow> string \<Rightarrow> exn + json" where
  "index_part r index_name key =
     (case response_json r of
        Inl e \<Rightarrow> Inl e
      | Inr j \<Rightarrow>
          (case py_getitem j index_name of
             Inl e \<Rightarrow> Inl e
           | Inr part \<Rightarrow> py_getitem part key))"

definition get_source_index_info ::
  "copier \<Rightarrow> string \<Rightarrow> world \<Rightarrow> (exn + (json \<times> json)) \<times> world" where
  "get_source_index_info c index_name w =
     (case send (settings_request c index_name) w of
        (Inl e, w1) \<Rightarrow> (Inl e, w1)
      | (Inr settings_response, w1) \<Rightarrow>
          (case raise_for_status settings_response of
             Inl e \<Rightarrow> (Inl e, w1)
           | Inr _ \<Rightarrow>
               (case send (mappings_request c index_name) w1 of
                  (Inl e, w2) \<Rightarrow> (Inl e, w2)
                | (Inr mappings_response, w2) \<Rightarrow>
                    (case raise_for_status mappings_response of
                       Inl e \<Rightarrow> (Inl e, w2)
                     | Inr _ \<Rightarrow>
                         (case index_part settings_response index_name ''settings'' of
                            Inl e \<Rightarrow> (Inl e, w2)
                          | Inr settings \<Rightarrow>
                              (case index_part mappings_response index_name ''mappings'' of
                                 Inl e \<Rightarrow> (Inl e, w2)
                               | Inr mappings \<Rightarrow> (Inr (settings, mappings), w2)))))))"

subsection \<open>create_index_with_settings\<close>

text \<open>
  \<open>source_settings.get("index", {}).get("mapping", {}).get("total_fields.limit")\<close>:
  the value under the key \<open>total_fields.limit\<close> of the \<open>mapping\<close> object, \<open>None\<close>
  when a key is missing.
\<close>

definition source_total_fields :: "json \<Rightarrow> exn + json" where
  "source_total_fields source_settings =
     (case py_get source_settings ''index'' (JObj []) of
        Inl e \<Rightarrow> Inl e
      | Inr idx \<Rightarrow>
          (case py_get idx ''mapping'' (JObj []) of
             Inl e \<Rightarrow> Inl e
           | Inr m \<Rightarrow> py_get m ''total_fields.limit'' JNull))"

text \<open>\<open>source_settings.get("index", {}).get(key, "1")\<close>\<close>

definition index_setting :: "json \<Rightarrow> string \<Rightarrow> exn + json" where
  "index_setting source_settings key =
     (case py_get source_settings ''index'' (JObj []) of
        Inl e \<Rightarrow> Inl e
      | Inr idx \<Rightarrow> py_get idx key (JStr ''1''))"

text \<open>
  The limit to write, if any. \<open>policy\<close> is \<open>self.total_fields_limit\<close>: with -1 the
  source's value is taken when it is true; otherwise the policy itself when it is
  true and positive.
\<close>

definition field_limit :: "int option \<Rightarrow> json \<Rightarrow> json option" where
  "field_limit policy source_total =
     (if policy = Some (- 1)
      then (if py_truthy source_total then Some source_total else None)
      else (case policy of
              None \<Rightarrow> None
            | Some n \<Rightarrow> if n \<noteq> 0 \<and> n > 0 then Some (JInt n) else None))"

definition limit_object :: "json \<Rightarrow> json" where
  "limit_object l = JObj [(''total_fields'', JObj [(''limit'', l)])]"

definition dest_settings :: "int option \<Rightarrow> json \<Rightarrow> exn + json" where
  "dest_settings policy source_settings =
     (case source_total_fields source_settings of
        Inl e \<Rightarrow> Inl e
      | Inr stf \<Rightarrow>
          (case index_setting source_settings ''number_of_shards'' of
             Inl e \<Rightarrow> Inl e
           | Inr shards \<Rightarrow>
               (case index_setting source_settings ''number_of_replicas'' of
                  Inl e \<Rightarrow> Inl e
                | Inr replicas \<Rightarrow>
                    (let index = [(''number_of_shards'', shards), (''number_of_replicas'', replicas)]
                     in Inr (JObj [(''index'',
                          JObj (case field_limit policy stf of
                                  None \<Rightarrow> index
                                | Some l \<Rightarrow> AList.update ''mapping'' (limit_object l) index))])))))"

definition delete_index_request :: "copier \<Rightarrow> string \<Rightarrow> request" where
  "delete_index_request c target_index =
     \<lparr>meth = DELETE, url = dest_host c @ ''/'' @ target_index,
      auth = dest_auth c, headers = [], payload = NoBody\<rparr>"

definition create_index_request :: "copier \<Rightarrow> string \<Rightarrow> json \<Rightarrow> json \<Rightarrow> request" where
  "create_index_request c target_index settings source_mappings =
     \<lparr>meth = PUT, url = dest_host c @ ''/'' @ target_index,
      auth = dest_auth c, headers = json_headers,
      payload = JsonBody (JObj [(''settings'', settings), (''mappings'', source_mappings)])\<rparr>"

text \<open>
  The delete request is sent first; an exception of the transport is caught and dropped,
  and the response is not looked at. Then the settings are computed and the index is
  created.
\<close>

definition create_index_with_settings ::
  "copier \<Rightarrow> string \<Rightarrow> string \<Rightarrow> json \<Rightarrow> json \<Rightarrow> world \<Rightarrow> (exn + json) \<times> world" where
  "create_index_with_settings c source_index target_index source_settings source_mappings w =
     (let w1 = snd (send (delete_index_request c target_index) w)
      in (case dest_settings (total_fields_limit c) source_settings of
            Inl e \<Rightarrow> (Inl e, w1)
          | Inr settings \<Rightarrow>
              (case send (create_index_request c target_index settings source_mappings) w1 of
                 (Inl e, w2) \<Rightarrow> (Inl e, w2)
               | (Inr resp, w2) \<Rightarrow>
                   (case raise_for_status resp of
                      Inl e \<Rightarrow> (Inl e, w2)
                    | Inr _ \<Rightarrow> (response_json resp, w2)))))"

subsection \<open>reindex_data\<close>

definition open_request :: "copier \<Rightarrow> string \<Rightarrow> request" where
  "open_request c source_index =
     \<lparr>meth = POST, url = source_host c @ ''/'' @ source_index @ ''/_search?scroll=5m'',
      auth = source_auth c, headers = json_headers,
      payload = JsonBody (JObj [(''size'', JInt (batch_size c)),
                                (''query'', JObj [(''match_all'', JObj [])])])\<rparr>"

definition scroll_request :: "copier \<Rightarrow> json \<Rightarrow> request" where
  "scroll_request c scroll_id =
     \<lparr>meth = POST, url = source_host c @ ''/_search/scroll'',
      auth = source_auth c, headers = json_headers,
      payload = JsonBody (JObj [(''scroll'', JStr ''5m''), (''scroll_id'', scroll_id)])\<rparr>"

definition bulk_request :: "copier \<Rightarrow> json list \<Rightarrow> request" where
  "bulk_request c bulk_body =
     \<lparr>meth = POST, url = dest_host c @ ''/_bulk'',
      auth = dest_auth c, headers = json_headers, payload = DataBody bulk_body\<rparr>"

definition close_request :: "copier \<Rightarrow> json \<Rightarrow> request" where
  "close_request c scroll_id =
     \<lparr>meth = DELETE, url = source_host c @ ''/_search/scroll'',
      auth = source_auth c, headers = json_headers,
      payload = JsonBody (JObj [(''scroll_id'', scroll_id)])\<rparr>"

text \<open>The two lines one hit adds to the bulk body: the action and the document.\<close>

definition bulk_lines :: "string \<Rightarrow> json \<Rightarrow> exn + json list" where
  "bulk_lines target_index hit =
     (case py_getitem hit ''_id'' of
        Inl e \<Rightarrow> Inl e
      | Inr hit_id \<Rightarrow>
          (case py_getitem hit ''_source'' of
             Inl e \<Rightarrow> Inl e
           | Inr src \<Rightarrow>
               Inr [JObj [(''index'', JObj [(''_index'', JStr target_index), (''_id'', hit_id)])],
                    src]))"

fun bulk_body_loop :: "string \<Rightarrow> json list \<Rightarrow> exn + json list" where
  "bulk_body_loop target_index [] = Inr []"
| "bulk_body_loop target_index (hit # hits) =
     (case bulk_lines target_index hit of
        Inl e \<Rightarrow> Inl e
      | Inr ls \<Rightarrow>
          (case bulk_body_loop target_index hits of
             Inl e \<Rightarrow> Inl e
           | Inr rest \<Rightarrow> Inr (ls @ rest)))"

definition build_bulk_body :: "string \<Rightarrow> json \<Rightarrow> exn + json list" where
  "build_bulk_body target_index hits =
     (case py_iter hits of
        Inl e \<Rightarrow> Inl e
      | Inr hs \<Rightarrow> bulk_body_loop target_index hs)"

text \<open>
  What the loop does with the bulk response: a status other than 200 is logged; with
  status 200 the body is parsed and its \<open>errors\<close> entry read (and a warning logged when it
  is true). Only the parsing and the \<open>get\<close> can raise.
\<close>

definition check_bulk_response :: "response \<Rightarrow> exn + unit" where
  "check_bulk_response r =
     (if status_code r \<noteq> 200 then Inr ()
      else (case response_json r of
              Inl e \<Rightarrow> Inl e
            | Inr body \<Rightarrow>
                (case py_get body ''errors'' (JBool False) of
                   Inl e \<Rightarrow> Inl e
                 | Inr _ \<Rightarrow> Inr ())))"

text \<open>\<open>raise_for_status\<close>, then \<open>response.json()['_scroll_id']\<close> and
  \<open>response.json()['hits']['hits']\<close>.\<close>

definition read_page :: "response \<Rightarrow> exn + (json \<times> json)" where
  "read_page r =
     (case raise_for_status r of
        Inl e \<Rightarrow> Inl e
      | Inr _ \<Rightarrow>
          (case response_json r of
             Inl e \<Rightarrow> Inl e
           | Inr j \<Rightarrow>
               (case py_getitem j ''_scroll_id'' of
                  Inl e \<Rightarrow> Inl e
                | Inr scroll_id \<Rightarrow>
                    (case py_getitem j ''hits'' of
                       Inl e \<Rightarrow> Inl e
                     | Inr h \<Rightarrow>
                         (case py_getitem h ''hits'' of
                            Inl e \<Rightarrow> Inl e
                          | Inr hits \<Rightarrow> Inr (scroll_id, hits))))))"

definition fetch_page :: "copier \<Rightarrow> json \<Rightarrow> world \<Rightarrow> (exn + (json \<times> json)) \<times> world" where
  "fetch_page c scroll_id w =
     (case send (scroll_request c scroll_id) w of
        (Inl e, w') \<Rightarrow> (Inl e, w')
      | (Inr r, w') \<Rightarrow> (read_page r, w'))"

text \<open>
  The \<open>while hits:\<close> loop. It returns the last scroll id and the number of documents
  counted, or the exception that left it. The handler around the body of \<open>reindex_data\<close>
  logs and raises the exception again, so it does not show in the model; the older script
  \<open>elk-simple-copier.py\<close> has the same loop without the handler, with the source index
  name as the target.
\<close>

function scroll_loop ::
  "copier \<Rightarrow> string \<Rightarrow> json \<Rightarrow> json \<Rightarrow> int \<Rightarrow> world \<Rightarrow> (exn + (json \<times> int)) \<times> world" where
  "scroll_loop c target_index scroll_id hits total_docs w =
     (if \<not> py_truthy hits then (Inr (scroll_id, total_docs), w)
      else
        (case build_bulk_body target_index hits of
           Inl e \<Rightarrow> (Inl e, w)
         | Inr bulk_body \<Rightarrow>
             (case send (bulk_request c bulk_body) w of
                (Inl e, w1) \<Rightarrow> (Inl e, w1)
              | (Inr resp, w1) \<Rightarrow>
                  (case check_bulk_response resp of
                     Inl e \<Rightarrow> (Inl e, w1)
                   | Inr _ \<Rightarrow>
                       (case py_len hits of
                          Inl e \<Rightarrow> (Inl e, w1)
                        | Inr n \<Rightarrow>
                            (case fetch_page c scroll_id w1 of
                               (Inl e, w2) \<Rightarrow> (Inl e, w2)
                             | (Inr (scroll_id', hits'), w2) \<Rightarrow>
                                 scroll_loop c target_index scroll_id' hits' (total_docs + n) w2))))))"
  by pat_completeness auto
termination
  apply (relation "measure (\<lambda>(c, target_index, scroll_id, hits, total_docs, w). length (script w))")
   apply simp
  apply (auto simp: send_def fetch_page_def split: list.splits reply.splits prod.splits sum.splits)
  done

declare scroll_loop.simps [simp del]

definition reindex_data :: "copier \<Rightarrow> string \<Rightarrow> string \<Rightarrow> world \<Rightarrow> (exn + int) \<times> world" where
  "reindex_data c source_index target_index w =
     (case send (open_request c source_index) w of
        (Inl e, w1) \<Rightarrow> (Inl e, w1)
      | (Inr resp, w1) \<Rightarrow>
          (case read_page resp of
             Inl e \<Rightarrow> (Inl e, w1)
           | Inr (scroll_id, hits) \<Rightarrow>
               (case scroll_loop c target_index scroll_id hits 0 w1 of
                  (Inl e, w2) \<Rightarrow> (Inl e, w2)
                | (Inr (scroll_id', total_docs), w2) \<Rightarrow>
                    (case send (close_request c scroll_id') w2 of
                       (Inl e, w3) \<Rightarrow> (Inl e, w3)
                     | (Inr _, w3) \<Rightarrow> (Inr total_docs, w3)))))"

subsection \<open>copy_index and the loop of main\<close>

definition copy_steps :: "copier \<Rightarrow> string \<Rightarrow> string \<Rightarrow> world \<Rightarrow> (exn + int) \<times> world" where
  "copy_steps c source_index target_index w =
     (case get_source_index_info c source_index w of
        (Inl e, w1) \<Rightarrow> (Inl e, w1)
      | (Inr (settings, mappings), w1) \<Rightarrow>
          (case create_index_with_settings c source_index target_index settings mappings w1 of
             (Inl e, w2) \<Rightarrow> (Inl e, w2)
           | (Inr _, w2) \<Rightarrow> reindex_data c source_index target_index w2))"

text \<open>
  \<open>hasattr(e, 'response')\<close> and \<open>e.response\<close>. Every \<open>RequestException\<close> has the attribute:
  its constructor sets it, to \<open>None\<close> when no response is given; only the \<open>HTTPError\<close> of
  \<open>raise_for_status\<close> is created with one. The built-in exceptions have no such attribute.
\<close>

fun has_response :: "exn \<Rightarrow> bool" where
  "has_response (ConnectionError m) = True"
| "has_response (HTTPError r) = True"
| "has_response JSONDecodeError = True"
| "has_response _ = False"

fun exn_response :: "exn \<Rightarrow> response option" where
  "exn_response (HTTPError r) = Some r"
| "exn_response _ = None"

text \<open>
  The first lines of the handler of \<open>copy_index\<close>: \<open>str(e)\<close>, extended by
  \<open>e.response.text\<close> when \<open>e\<close> has the attribute \<open>response\<close>. Reading \<open>text\<close> from \<open>None\<close>
  raises \<open>AttributeError\<close>.
\<close>

definition error_message :: "exn \<Rightarrow> exn + string" where
  "error_message e =
     (if has_response e
      then (case exn_response e of
              None \<Rightarrow>
                Inl (AttributeError (squote @ ''NoneType'' @ squote @ '' object has no attribute ''
                                     @ squote @ ''text'' @ squote))
            | Some r \<Rightarrow> Inr (exn_str e @ nl @ ''Response: '' @ resp_text r))
      else Inr (exn_str e))"

definition copy_index ::
  "copier \<Rightarrow> string \<Rightarrow> string \<Rightarrow> copy_statistics \<Rightarrow> world
     \<Rightarrow> (exn + unit) \<times> copy_statistics \<times> world" where
  "copy_index c source_index target_index st w =
     (case copy_steps c source_index target_index w of
        (Inr total_docs, w') \<Rightarrow> (Inr (), add_success source_index target_index total_docs st, w')
      | (Inl e, w') \<Rightarrow>
          (case error_message e of
             Inl e' \<Rightarrow> (Inl e', st, w')
           | Inr error_msg \<Rightarrow> (Inl e, add_failure source_index target_index error_msg st, w')))"

text \<open>The loop of \<open>main\<close>: an exception of \<open>copy_index\<close> is logged and the loop continues.\<close>

fun copy_all ::
  "copier \<Rightarrow> (string \<times> string) list \<Rightarrow> copy_statistics \<Rightarrow> world \<Rightarrow> copy_statistics \<times> world" where
  "copy_all c [] st w = (st, w)"
| "copy_all c ((source_index, target_index) # rest) st w =
     (case copy_index c source_index target_index st w of
        (_, st', w') \<Rightarrow> copy_all c rest st' w')"

text \<open>
  \<open>main\<close> from the start of the statistics on: \<open>start\<close>, the loop, \<open>finish\<close>, \<open>summary\<close>.
  \<open>t0\<close> and \<open>t1\<close> are the two readings of the clock.
\<close>

definition main_copy ::
  "copier \<Rightarrow> (string \<times> string) list \<Rightarrow> int \<Rightarrow> int \<Rightarrow> world
     \<Rightarrow> (exn + string) \<times> copy_statistics \<times> world" where
  "main_copy c index_map t0 t1 w =
     (case copy_all c index_map (start t0 init_statistics) w of
        (st, w') \<Rightarrow> (summary (finish t1 st), finish t1 st, w'))"

section \<open>Reading the record of a run\<close>

text \<open>
  What the properties below read off the recorded exchanges. The request that releases
  the scroll is the only \<open>DELETE\<close> on the source's scroll URL. The page a reply carries is
  what \<open>read_page\<close> finds in it, and so is the scroll id it carries; \<open>last_scroll_id\<close> is
  the scroll id of the last page reply in a list of exchanges. The documents of a bulk
  request are half its lines (an action line and a document line each). A bulk exchange
  is rejected when the bulk request is answered by a response whose status is not 200,
  the test the loop itself applies; \<open>bulk_followed\<close> says of a list of exchanges that
  every rejected bulk exchange in it is followed at once by a request for the next page.
  \<open>exchanges_since w w'\<close> are the exchanges added between two states of the world.
\<close>

definition is_close :: "copier \<Rightarrow> request \<times> reply \<Rightarrow> bool" where
  "is_close c x = (meth (fst x) = DELETE \<and> url (fst x) = source_host c @ ''/_search/scroll'')"

definition close_count :: "copier \<Rightarrow> (request \<times> reply) list \<Rightarrow> nat" where
  "close_count c xs = length (filter (is_close c) xs)"

fun hits_count :: "json \<Rightarrow> int" where
  "hits_count (JArr hs) = int (length hs)"
| "hits_count _ = 0"

definition page_size :: "reply \<Rightarrow> int" where
  "page_size rp =
     (case rp of
        Raises m \<Rightarrow> 0
      | Responds r \<Rightarrow> (case read_page r of Inl e \<Rightarrow> 0 | Inr (scroll_id, hits) \<Rightarrow> hits_count hits))"

definition is_scroll_post :: "request \<Rightarrow> bool" where
  "is_scroll_post rq =
     (meth rq = POST \<and> (case payload rq of JsonBody j \<Rightarrow> True | _ \<Rightarrow> False))"

definition docs_returned :: "(request \<times> reply) list \<Rightarrow> int" where
  "docs_returned xs =
     sum_list (map (\<lambda>x. page_size (snd x)) (filter (\<lambda>x. is_scroll_post (fst x)) xs))"

definition bulk_size :: "request \<Rightarrow> int" where
  "bulk_size rq =
     (if meth rq = POST
      then (case payload rq of DataBody ls \<Rightarrow> int (length ls div 2) | _ \<Rightarrow> 0)
      else 0)"

definition docs_sent :: "(request \<times> reply) list \<Rightarrow> int" where
  "docs_sent xs = sum_list (map (\<lambda>x. bulk_size (fst x)) xs)"

definition page_scroll_id :: "request \<times> reply \<Rightarrow> json option" where
  "page_scroll_id x =
     (if is_scroll_post (fst x)
      then (case snd x of
              Raises m \<Rightarrow> None
            | Responds r \<Rightarrow>
                (case read_page r of Inl e \<Rightarrow> None | Inr (scroll_id, hits) \<Rightarrow> Some scroll_id))
      else None)"

fun last_scroll_id :: "(request \<times> reply) list \<Rightarrow> json option" where
  "last_scroll_id [] = None"
| "last_scroll_id (x # xs) =
     (case last_scroll_id xs of None \<Rightarrow> page_scroll_id x | Some scroll_id \<Rightarrow> Some scroll_id)"

definition is_next_page :: "copier \<Rightarrow> request \<Rightarrow> bool" where
  "is_next_page c rq = (meth rq = POST \<and> url rq = source_host c @ ''/_search/scroll'')"

definition rejected_bulk :: "request \<times> reply \<Rightarrow> bool" where
  "rejected_bulk x =
     (meth (fst x) = POST
      \<and> (case payload (fst x) of DataBody ls \<Rightarrow> True | _ \<Rightarrow> False)
      \<and> (case snd x of Raises m \<Rightarrow> False | Responds r \<Rightarrow> status_code r \<noteq> 200))"

fun bulk_followed :: "copier \<Rightarrow> (request \<times> reply) list \<Rightarrow> bool" where
  "bulk_followed c [] = True"
| "bulk_followed c [x] = (\<not> rejected_bulk x)"
| "bulk_followed c (x # y # xs) =
     ((rejected_bulk x \<longrightarrow> is_next_page c (fst y)) \<and> bulk_followed c (y # xs))"

definition exchanges_since :: "world \<Rightarrow> world \<Rightarrow> (request \<times> reply) list" where
  "exchanges_since w w' = drop (length (exchanges w)) (exchanges w')"

text \<open>The value found in a JSON document by following a path of keys.\<close>

fun json_path :: "string list \<Rightarrow> json \<Rightarrow> json option" where
  "json_path [] j = Some j"
| "json_path (k # ks) (JObj kvs) = (case map_of kvs k of None \<Rightarrow> None | Some v \<Rightarrow> json_path ks v)"
| "json_path (k # ks) _ = None"

section \<open>A small setting for concrete runs\<close>

text \<open>
  A copier, responses and documents with short names, used where a property is shown on
  a concrete run. \<open>plain_response\<close> has a body that is not JSON.
\<close>

definition example_copier :: copier where
  "example_copier =
     \<lparr>source_host = ''s'', dest_host = ''d'', source_auth = (''u'', ''p''),
      dest_auth = (''v'', ''q''), batch_size = 1000, total_fields_limit = Some (- 1)\<rparr>"

definition plain_response :: "int \<Rightarrow> response" where
  "plain_response status =
     \<lparr>status_code = status, reason = ''R'', resp_url = ''U'', resp_text = ''T'',
      resp_json = None\<rparr>"

definition json_response :: "int \<Rightarrow> json \<Rightarrow> response" where
  "json_response status j = (plain_response status)\<lparr>resp_json := Some j\<rparr>"

definition example_doc :: "string \<Rightarrow> json" where
  "example_doc i = JObj [(''_id'', JStr i), (''_source'', JObj [(''f'', JInt 1)])]"

definition page_response :: "string \<Rightarrow> json list \<Rightarrow> response" where
  "page_response sid hs =
     json_response 200 (JObj [(''_scroll_id'', JStr sid), (''hits'', JObj [(''hits'', JArr hs)])])"

definition fresh_world :: "reply list \<Rightarrow> world" where
  "fresh_world rs = \<lparr>script = rs, exchanges = []\<rparr>"

text \<open>
  The replies to the four requests that \<open>copy_index\<close> makes for the index \<open>a\<close> before
  it starts to copy documents (settings, mappings, delete, create), followed by \<open>rs\<close>.
\<close>

definition copy_replies :: "reply list \<Rightarrow> reply list" where
  "copy_replies rs =
     [Responds (json_response 200 (JObj [(''a'', JObj [(''settings'', JObj [])])])),
      Responds (json_response 200 (JObj [(''a'', JObj [(''mappings'', JObj [])])])),
      Responds (plain_response 404),
      Responds (json_response 200 (JObj [(''acknowledged'', JBool True)]))] @ rs"

section \<open>Properties of the statistics collector\<close>

lemma foldl_stat_ops_successes:
  "successful_copies (foldl apply_stat_op st ops) = successful_copies st @ successes_of ops
   \<and> total_documents (foldl apply_stat_op st ops)
       = total_documents st + sum_list (map (\<lambda>x. snd (snd x)) (successes_of ops))"
proof (induction ops arbitrary: st)
  case Nil
  then show ?case by simp
next
  case (Cons x xs)
  show ?case
    by (cases x) (simp_all add: Cons.IH add_success_def add_failure_def start_def finish_def)
qed

text \<open>
  Claim C7. After every sequence of calls on a fresh collector, the list of recorded
  successes is the list of the \<open>add_success\<close> calls of the sequence, in order, and
  \<open>total_documents\<close> is the sum of their document counts, which is the sum over the
  recorded successes; \<open>add_failure\<close> changes neither \<open>total_documents\<close> nor the list of
  successes.
\<close>

theorem total_documents_is_sum_of_successes:
  "successful_copies (apply_stat_ops ops) = successes_of ops
   \<and> total_documents (apply_stat_ops ops) = sum_list (map (\<lambda>x. snd (snd x)) (successes_of ops))
   \<and> total_documents (apply_stat_ops ops)
       = sum_list (map (\<lambda>x. snd (snd x)) (successful_copies (apply_stat_ops ops)))
   \<and> total_documents (add_failure source target error st) = total_documents st
   \<and> successful_copies (add_failure source target error st) = successful_copies st"
  by (simp add: apply_stat_ops_def foldl_stat_ops_successes init_statistics_def add_failure_def)

lemma start_time_foldl:
  "start_time (foldl apply_stat_op st ops) = None
   \<longleftrightarrow> start_time st = None \<and> (\<forall>now. Start now \<notin> set ops)"
proof (induction ops arbitrary: st)
  case Nil
  then show ?case by simp
next
  case (Cons x xs)
  show ?case
    by (cases x) (auto simp: Cons.IH add_success_def add_failure_def start_def finish_def)
qed

lemma end_time_foldl:
  "end_time (foldl apply_stat_op st ops) = None
   \<longleftrightarrow> end_time st = None \<and> (\<forall>now. Finish now \<notin> set ops)"
proof (induction ops arbitrary: st)
  case Nil
  then show ?case by simp
next
  case (Cons x xs)
  show ?case
    by (cases x) (auto simp: Cons.IH add_success_def add_failure_def start_def finish_def)
qed

lemma summary_returns_iff:
  "(\<exists>txt. summary st = Inr txt) \<longleftrightarrow> \<not> (start_time st = None \<or> end_time st = None)"
  by (auto simp: summary_def split: option.splits)

text \<open>
  Claim C9, as stated, fails: on a collector on which nothing has been called,
  \<open>summary\<close> raises \<open>TypeError\<close>, since both times are still \<open>None\<close>.
\<close>

theorem summary_raises_on_fresh_collector:
  "summary (apply_stat_ops []) = Inl (TypeError ''unsupported operand type(s) for -'')"
  by (simp add: apply_stat_ops_def init_statistics_def summary_def)

text \<open>
  Claim C9, amended. After a sequence of calls on a fresh collector, \<open>summary\<close> returns a
  text exactly when the sequence contains a call of \<open>start\<close> and a call of \<open>finish\<close>;
  the calls of \<open>add_success\<close> and \<open>add_failure\<close> play no part.
\<close>

theorem summary_returns_after_start_and_finish:
  "(\<exists>txt. summary (apply_stat_ops ops) = Inr txt)
   \<longleftrightarrow> (\<exists>now. Start now \<in> set ops) \<and> (\<exists>now. Finish now \<in> set ops)"
  unfolding summary_returns_iff apply_stat_ops_def start_time_foldl end_time_foldl
  by (auto simp: init_statistics_def)

theorem summary_returns_witness:
  "\<exists>txt. summary (apply_stat_ops [Start 0, AddFailure ''a'' ''b'' ''boom'', Finish 5]) = Inr txt"
  using summary_returns_after_start_and_finish
          [of "[Start 0, AddFailure ''a'' ''b'' ''boom'', Finish 5]"]
  by auto

section \<open>Properties of parse_index_mapping\<close>

lemma parse_loop_fold:
  "parse_loop entries acc = Inr index_map
   \<Longrightarrow> \<exists>pairs. map parse_pair entries = map Inr pairs
         \<and> index_map = fold (\<lambda>p. AList.update (fst p) (snd p)) pairs acc"
proof (induction entries arbitrary: acc)
  case Nil
  then show ?case by simp
next
  case (Cons e es)
  from Cons.prems obtain s t where p: "parse_pair e = Inr (s, t)"
    and rest: "parse_loop es (AList.update s t acc) = Inr index_map"
    by (auto split: sum.splits)
  from Cons.IH [OF rest] obtain pairs where
    "map parse_pair es = map Inr pairs"
    "index_map = fold (\<lambda>p. AList.update (fst p) (snd p)) pairs (AList.update s t acc)"
    by blast
  then have "map parse_pair (e # es) = map Inr ((s, t) # pairs)
     \<and> index_map = fold (\<lambda>p. AList.update (fst p) (snd p)) ((s, t) # pairs) acc"
    using p by simp
  then show ?case by blast
qed

lemma fold_update_distinct:
  "distinct (map fst acc)
   \<Longrightarrow> distinct (map fst (fold (\<lambda>p. AList.update (fst p) (snd p)) pairs acc))"
  by (induction pairs arbitrary: acc) (simp_all add: AList.distinct_update)

lemma fold_update_map_of:
  "map_of (fold (\<lambda>p. AList.update (fst p) (snd p)) pairs acc) = map_of acc ++ map_of (rev pairs)"
proof (induction pairs arbitrary: acc)
  case Nil
  then show ?case by simp
next
  case (Cons p ps)
  show ?case
    by (cases p)
      (simp add: Cons.IH AList.update_conv' fun_eq_iff map_add_def split: option.splits)
qed

lemma parse_pair_plain:
  "CHR '':'' \<notin> set e \<Longrightarrow> parse_pair e = Inr (py_strip e, py_strip e)"
  by (simp add: parse_pair_def)

text \<open>
  When parsing returns at all: exactly when no entry holds more than one colon.
\<close>

lemma split_on_length: "length (split_on c s) = Suc (count_list s c)"
  by (induction s) (auto split: list.splits)

lemma count_list_dropWhile: "\<not> P c \<Longrightarrow> count_list (dropWhile P s) c = count_list s c"
  by (induction s) auto

lemma count_list_rev_eq: "count_list (rev s) c = count_list s c"
  by (induction s) auto

lemma colon_not_space: "\<not> is_space CHR '':''"
  by (simp add: is_space_def)

lemma count_colon_strip: "count_list (py_strip s) CHR '':'' = count_list s CHR '':''"
  by (simp add: py_strip_def count_list_rev_eq count_list_dropWhile colon_not_space)

lemma parse_pair_returns:
  "(\<exists>p. parse_pair e = Inr p) \<longleftrightarrow> count_list e CHR '':'' \<le> 1"
proof (cases "CHR '':'' \<in> set e")
  case False
  then show ?thesis by (simp add: parse_pair_def)
next
  case True
  then have pos: "0 < count_list e CHR '':''"
    by (metis count_list_0_iff gr0I)
  have len: "length (split_on CHR '':'' (py_strip e)) = Suc (count_list e CHR '':'')"
    by (simp add: split_on_length count_colon_strip)
  show ?thesis
  proof (cases "split_on CHR '':'' (py_strip e)")
    case Nil
    with len show ?thesis by simp
  next
    case (Cons a as)
    show ?thesis
    proof (cases as)
      case Nil
      with Cons len pos show ?thesis by simp
    next
      case (Cons b bs)
      with \<open>split_on CHR '':'' (py_strip e) = a # as\<close> len True show ?thesis
        by (cases bs) (auto simp: parse_pair_def)
    qed
  qed
qed

lemma parse_loop_returns:
  "(\<exists>m. parse_loop entries acc = Inr m) \<longleftrightarrow> (\<forall>e \<in> set entries. count_list e CHR '':'' \<le> 1)"
proof (induction entries arbitrary: acc)
  case Nil
  then show ?case by simp
next
  case (Cons e es)
  show ?case
  proof (cases "parse_pair e")
    case (Inl x)
    with parse_pair_returns [of e] show ?thesis by auto
  next
    case (Inr p)
    with parse_pair_returns [of e] have "count_list e CHR '':'' \<le> 1" by auto
    with Inr Cons.IH show ?thesis by (cases p) auto
  qed
qed

lemma parse_index_mapping_returns:
  "(\<exists>m. parse_index_mapping s = Inr m)
   \<longleftrightarrow> s = [] \<or> (\<forall>e \<in> set (split_on CHR '','' s). count_list e CHR '':'' \<le> 1)"
  by (simp add: parse_index_mapping_def parse_loop_returns)

text \<open>
  Claim C10, as stated for every string, fails: an entry with two colons makes
  \<open>parse_index_mapping\<close> raise \<open>ValueError\<close>, and then no entry is mapped, the entry
  \<open>x\<close> without a colon included.
\<close>

theorem parse_index_mapping_raises_on_second_colon:
  "parse_index_mapping ''x,a:b:c'' = Inl (ValueError ''too many values to unpack (expected 2)'')"
  by (simp add: parse_index_mapping_def parse_pair_def py_strip_def is_space_def)

text \<open>
  Claim C10, amended. For every string in which no comma-separated entry holds more than
  one colon, \<open>parse_index_mapping\<close> returns a work list. For a non-empty string every
  entry has given a pair, in order (\<open>pairs\<close>); an entry without a colon has given the pair
  of its trimmed text with itself; the work list has at most one pair for a source name,
  and the target it holds for a source is the target of the last entry with that source
  (\<open>map_of\<close> on the reversed list of pairs finds the last one). For the empty string the
  work list is empty.
\<close>

theorem parse_index_mapping_last_entry_wins:
  assumes "\<forall>e \<in> set (split_on CHR '','' indices_str). count_list e CHR '':'' \<le> 1"
  shows "\<exists>index_map. parse_index_mapping indices_str = Inr index_map
       \<and> (indices_str = [] \<longrightarrow> index_map = [])
       \<and> (indices_str \<noteq> [] \<longrightarrow>
           (\<exists>pairs. map parse_pair (split_on CHR '','' indices_str) = map Inr pairs
              \<and> (\<forall>e \<in> set (split_on CHR '','' indices_str).
                     CHR '':'' \<notin> set e \<longrightarrow> (py_strip e, py_strip e) \<in> set pairs)
              \<and> distinct (map fst index_map)
              \<and> map_of index_map = map_of (rev pairs)))"
proof -
  from assms parse_index_mapping_returns [of indices_str] obtain index_map where
    r: "parse_index_mapping indices_str = Inr index_map"
    by blast
  show ?thesis
  proof (cases "indices_str = []")
    case True
    with r show ?thesis by (simp add: parse_index_mapping_def)
  next
    case False
    with r have "parse_loop (split_on CHR '','' indices_str) [] = Inr index_map"
      by (simp add: parse_index_mapping_def)
    from parse_loop_fold [OF this] obtain pairs where
      pairs: "map parse_pair (split_on CHR '','' indices_str) = map Inr pairs"
      and im: "index_map = fold (\<lambda>p. AList.update (fst p) (snd p)) pairs []"
      by blast
    have plain: "(py_strip e, py_strip e) \<in> set pairs"
      if "e \<in> set (split_on CHR '','' indices_str)" "CHR '':'' \<notin> set e" for e
    proof -
      from that
      have "Inr (py_strip e, py_strip e) \<in> set (map parse_pair (split_on CHR '','' indices_str))"
        using parse_pair_plain [of e] by (metis image_eqI set_map)
      then show ?thesis unfolding pairs by auto
    qed
    have "distinct (map fst index_map)"
      unfolding im by (rule fold_update_distinct) simp
    moreover have "map_of index_map = map_of (rev pairs)"
      unfolding im by (simp add: fold_update_map_of)
    ultimately show ?thesis using False pairs plain r by blast
  qed
qed

theorem parse_index_mapping_witness:
  "list_all (\<lambda>e. count_list e CHR '':'' \<le> 1) (split_on CHR '','' ''a, a:b ,c'')
   \<and> parse_index_mapping ''a, a:b ,c'' = Inr [(''a'', ''b''), (''c'', ''c'')]
   \<and> (\<exists>pairs. map parse_pair (split_on CHR '','' ''a, a:b ,c'') = map Inr pairs
         \<and> map_of [(''a'', ''b''), (''c'', ''c'')] = map_of (rev pairs))"
proof -
  have a: "\<forall>e \<in> set (split_on CHR '','' ''a, a:b ,c''). count_list e CHR '':'' \<le> 1"
    by simp
  have h: "parse_index_mapping ''a, a:b ,c'' = Inr [(''a'', ''b''), (''c'', ''c'')]"
    by (simp add: parse_index_mapping_def parse_pair_def py_strip_def is_space_def)
  have ne: "''a, a:b ,c'' \<noteq> []"
    by simp
  from parse_index_mapping_last_entry_wins [OF a] obtain index_map where
    im: "parse_index_mapping ''a, a:b ,c'' = Inr index_map"
    and rest: "''a, a:b ,c'' \<noteq> [] \<longrightarrow>
           (\<exists>pairs. map parse_pair (split_on CHR '','' ''a, a:b ,c'') = map Inr pairs
              \<and> (\<forall>e \<in> set (split_on CHR '','' ''a, a:b ,c'').
                     CHR '':'' \<notin> set e \<longrightarrow> (py_strip e, py_strip e) \<in> set pairs)
              \<and> distinct (map fst index_map)
              \<and> map_of index_map = map_of (rev pairs))"
    by blast
  from im h have "index_map = [(''a'', ''b''), (''c'', ''c'')]"
    by simp
  with rest ne obtain pairs where
    "map parse_pair (split_on CHR '','' ''a, a:b ,c'') = map Inr pairs"
    "map_of [(''a'', ''b''), (''c'', ''c'')] = map_of (rev pairs)"
    by blast
  with a h show ?thesis by (simp add: list_all_iff)
qed

section \<open>The transport and one turn of the page loop\<close>

lemma send_log:
  "send rq w = (res, w')
   \<Longrightarrow> \<exists>rp. exchanges w' = exchanges w @ [(rq, rp)]
          \<and> length (script w') \<le> length (script w)
          \<and> (case res of
               Inr r \<Rightarrow> rp = Responds r \<and> length (script w') < length (script w)
             | Inl e \<Rightarrow> \<exists>m. rp = Raises m \<and> e = ConnectionError m)"
  by (auto simp: send_def split: list.splits reply.splits)

lemma fetch_page_log:
  assumes "fetch_page c sid w = (res, w')"
  shows "\<exists>rp. exchanges w' = exchanges w @ [(scroll_request c sid, rp)]
          \<and> length (script w') \<le> length (script w)
          \<and> (case res of
               Inr p \<Rightarrow> (\<exists>r. rp = Responds r \<and> read_page r = Inr p)
             | Inl e \<Rightarrow> True)"
proof -
  obtain x w1 where s: "send (scroll_request c sid) w = (x, w1)"
    by force
  from send_log [OF s] obtain rp where rp: "exchanges w1 = exchanges w @ [(scroll_request c sid, rp)]"
    "length (script w1) \<le> length (script w)"
    "case x of Inr r \<Rightarrow> rp = Responds r \<and> length (script w1) < length (script w)
       | Inl e \<Rightarrow> \<exists>m. rp = Raises m \<and> e = ConnectionError m"
    by blast
  show ?thesis
  proof (cases x)
    case (Inl e)
    with s assms have "res = Inl e" "w' = w1" by (simp_all add: fetch_page_def)
    with rp show ?thesis by auto
  next
    case (Inr r)
    with s assms have res: "res = read_page r" "w' = w1" by (simp_all add: fetch_page_def)
    from rp(3) Inr have "rp = Responds r" by simp
    with res rp show ?thesis by (auto split: sum.splits)
  qed
qed

lemma bulk_body_loop_length:
  "bulk_body_loop t hs = Inr body \<Longrightarrow> length body = 2 * length hs"
  by (induction hs arbitrary: body) (auto simp: bulk_lines_def split: sum.splits)

lemma build_bulk_body_Inr:
  assumes "py_truthy hits" "build_bulk_body t hits = Inr body"
  obtains hs where "hits = JArr hs" "hs \<noteq> []" "length body = 2 * length hs"
proof (cases hits)
  case (JArr hs)
  with assms show ?thesis
    by (intro that [of hs]) (auto simp: build_bulk_body_def bulk_body_loop_length)
next
  case (JObj kvs)
  with assms obtain kv rest where "kvs = kv # rest" by (cases kvs) auto
  with assms JObj show ?thesis by (simp add: build_bulk_body_def bulk_lines_def)
next
  case (JStr s)
  with assms obtain ch rest where "s = ch # rest" by (cases s) auto
  with assms JStr show ?thesis by (simp add: build_bulk_body_def bulk_lines_def)
qed (use assms in \<open>simp_all add: build_bulk_body_def\<close>)

lemma scroll_loop_cases:
  obtains
    (stop) "\<not> py_truthy hits" "scroll_loop c t sid hits k w = (Inr (sid, k), w)"
  | (abort) e w1 where "py_truthy hits" "scroll_loop c t sid hits k w = (Inl e, w1)"
      "w1 = w
        \<or> (\<exists>body rp. exchanges w1 = exchanges w @ [(bulk_request c body, rp)]
              \<and> \<not> rejected_bulk (bulk_request c body, rp))
        \<or> (\<exists>body r rp. exchanges w1
              = exchanges w @ [(bulk_request c body, Responds r), (scroll_request c sid, rp)])"
  | (step) hs body resp w1 sid1 hits1 w2 rp r where
      "hits = JArr hs" "hs \<noteq> []" "build_bulk_body t hits = Inr body"
      "length body = 2 * length hs"
      "send (bulk_request c body) w = (Inr resp, w1)"
      "check_bulk_response resp = Inr ()"
      "fetch_page c sid w1 = (Inr (sid1, hits1), w2)"
      "exchanges w2
         = exchanges w @ [(bulk_request c body, Responds resp), (scroll_request c sid, rp)]"
      "rp = Responds r" "read_page r = Inr (sid1, hits1)"
      "length (script w2) < length (script w)"
      "scroll_loop c t sid hits k w = scroll_loop c t sid1 hits1 (k + int (length hs)) w2"
proof (cases "py_truthy hits")
  case False
  then show ?thesis by (intro stop) (simp_all add: scroll_loop.simps)
next
  case True
  show ?thesis
  proof (cases "build_bulk_body t hits")
    case (Inl e)
    with True show ?thesis by (intro abort [of e w]) (simp_all add: scroll_loop.simps)
  next
    case (Inr body)
    from True Inr obtain hs where hs: "hits = JArr hs" "hs \<noteq> []" "length body = 2 * length hs"
      by (rule build_bulk_body_Inr)
    obtain x w1 where s: "send (bulk_request c body) w = (x, w1)"
      by force
    from send_log [OF s] obtain rp1 where
      rp1: "exchanges w1 = exchanges w @ [(bulk_request c body, rp1)]"
      "length (script w1) \<le> length (script w)"
      "case x of Inr r \<Rightarrow> rp1 = Responds r \<and> length (script w1) < length (script w)
         | Inl e \<Rightarrow> \<exists>m. rp1 = Raises m \<and> e = ConnectionError m"
      by blast
    show ?thesis
    proof (cases x)
      case (Inl e)
      with rp1(3) have "\<not> rejected_bulk (bulk_request c body, rp1)"
        by (auto simp: rejected_bulk_def)
      with Inl True Inr s rp1 show ?thesis
        by (intro abort [of e w1]) (auto simp: scroll_loop.simps [of c t sid _ k w])
    next
      case xr: (Inr resp)
      with rp1 have rp1': "rp1 = Responds resp" "length (script w1) < length (script w)"
        by simp_all
      show ?thesis
      proof (cases "check_bulk_response resp")
        case (Inl e)
        then have "status_code resp = 200"
          by (auto simp: check_bulk_response_def split: if_splits)
        with rp1' have "\<not> rejected_bulk (bulk_request c body, rp1)"
          by (simp add: rejected_bulk_def)
        with Inl True Inr s xr rp1 show ?thesis
          by (intro abort [of e w1]) (auto simp: scroll_loop.simps [of c t sid _ k w])
      next
        case chk: (Inr u)
        obtain y w2 where f: "fetch_page c sid w1 = (y, w2)"
          by force
        from fetch_page_log [OF f] obtain rp where
          rp: "exchanges w2 = exchanges w1 @ [(scroll_request c sid, rp)]"
          "length (script w2) \<le> length (script w1)"
          "case y of Inr p \<Rightarrow> (\<exists>r. rp = Responds r \<and> read_page r = Inr p) | Inl e \<Rightarrow> True"
          by blast
        show ?thesis
        proof (cases y)
          case (Inl e)
          with True Inr s xr chk f hs rp rp1 rp1' show ?thesis
            by (intro abort [of e w2]) (auto simp: scroll_loop.simps [of c t sid _ k w])
        next
          case yr: (Inr p)
          obtain sid1 hits1 where p: "p = (sid1, hits1)" by (cases p)
          from rp(3) yr p obtain r where r: "rp = Responds r" "read_page r = Inr (sid1, hits1)"
            by auto
          show ?thesis
          proof (rule step [of hs body resp w1 sid1 hits1 w2 rp r])
            show "scroll_loop c t sid hits k w = scroll_loop c t sid1 hits1 (k + int (length hs)) w2"
              using True Inr s xr chk f hs yr p
              by (simp add: scroll_loop.simps [of c t sid _ k w])
          qed (use True Inr s xr chk f hs yr p rp rp1 rp1' r in auto)
        qed
      qed
    qed
  qed
qed


lemma close_count_simps [simp]:
  "close_count c [] = 0"
  "close_count c (xs @ ys) = close_count c xs + close_count c ys"
  "close_count c ((bulk_request c' body, rp) # xs) = close_count c xs"
  "close_count c ((scroll_request c' sid, rp) # xs) = close_count c xs"
  "close_count c ((open_request c' s, rp) # xs) = close_count c xs"
  "close_count c ((close_request c sid, rp) # xs) = Suc (close_count c xs)"
  by (simp_all add: close_count_def is_close_def bulk_request_def scroll_request_def
      open_request_def close_request_def)

lemma docs_returned_simps [simp]:
  "docs_returned [] = 0"
  "docs_returned (xs @ ys) = docs_returned xs + docs_returned ys"
  "docs_returned ((bulk_request c body, rp) # xs) = docs_returned xs"
  "docs_returned ((scroll_request c sid, rp) # xs) = page_size rp + docs_returned xs"
  "docs_returned ((open_request c s, rp) # xs) = page_size rp + docs_returned xs"
  "docs_returned ((close_request c sid, rp) # xs) = docs_returned xs"
  by (simp_all add: docs_returned_def is_scroll_post_def bulk_request_def scroll_request_def
      open_request_def close_request_def)

lemma docs_sent_simps [simp]:
  "docs_sent [] = 0"
  "docs_sent (xs @ ys) = docs_sent xs + docs_sent ys"
  "docs_sent ((bulk_request c body, rp) # xs) = int (length body div 2) + docs_sent xs"
  "docs_sent ((scroll_request c sid, rp) # xs) = docs_sent xs"
  "docs_sent ((open_request c s, rp) # xs) = docs_sent xs"
  "docs_sent ((close_request c sid, rp) # xs) = docs_sent xs"
  by (simp_all add: docs_sent_def bulk_size_def bulk_request_def scroll_request_def
      open_request_def close_request_def)

lemma last_scroll_id_append:
  "last_scroll_id (xs @ ys)
     = (case last_scroll_id ys of None \<Rightarrow> last_scroll_id xs | Some scroll_id \<Rightarrow> Some scroll_id)"
  by (induction xs) (auto split: option.splits)

lemma page_scroll_id_simps [simp]:
  "page_scroll_id (bulk_request c body, rp) = None"
  "page_scroll_id (close_request c sid, rp) = None"
  "read_page r = Inr (sid', hits) \<Longrightarrow> page_scroll_id (scroll_request c sid, Responds r) = Some sid'"
  "read_page r = Inr (sid', hits) \<Longrightarrow> page_scroll_id (open_request c s, Responds r) = Some sid'"
  by (simp_all add: page_scroll_id_def is_scroll_post_def bulk_request_def scroll_request_def
      open_request_def close_request_def)

lemma rejected_bulk_simps [simp]:
  "\<not> rejected_bulk (scroll_request c sid, rp)"
  "\<not> rejected_bulk (open_request c s, rp)"
  "\<not> rejected_bulk (close_request c sid, rp)"
  "is_next_page c (scroll_request c sid)"
  by (simp_all add: rejected_bulk_def is_next_page_def scroll_request_def open_request_def
      close_request_def)

lemma bulk_followed_append:
  "bulk_followed c xs \<Longrightarrow> bulk_followed c ys \<Longrightarrow> bulk_followed c (xs @ ys)"
proof (induction c xs rule: bulk_followed.induct)
  case (1 c)
  then show ?case by simp
next
  case (2 c x)
  then show ?case by (cases ys) simp_all
next
  case (3 c x y xs)
  then show ?case by simp
qed

lemma bulk_followed_without_bulk:
  "\<forall>x \<in> set xs. \<not> rejected_bulk x \<Longrightarrow> bulk_followed c xs"
  by (induction c xs rule: bulk_followed.induct) simp_all


lemma read_page_size:
  "read_page resp = Inr (sid, hits) \<Longrightarrow> page_size (Responds resp) = hits_count hits"
  by (simp add: page_size_def)

text \<open>
  What a run of the page loop adds to the record: no release of the scroll; every
  rejected bulk exchange followed by the request for the next page; and, when the loop
  ends, a count that is the documents of the page it started with and of the pages it
  fetched, which is the number of documents it sent, and a scroll id that is the one of
  the last page it fetched (the one it started with, if it fetched none).
\<close>

lemma scroll_loop_log:
  "scroll_loop c t sid hits k w = (res, w')
   \<Longrightarrow> \<exists>new. exchanges w' = exchanges w @ new \<and> close_count c new = 0
          \<and> bulk_followed c new
          \<and> (case res of
               Inr p \<Rightarrow> docs_returned new + hits_count hits = snd p - k
                        \<and> docs_sent new = snd p - k
                        \<and> fst p = (case last_scroll_id new of None \<Rightarrow> sid | Some x \<Rightarrow> x)
             | Inl e \<Rightarrow> True)"
proof (induction "length (script w)" arbitrary: sid hits k w rule: less_induct)
  case less
  show ?case
  proof (cases rule: scroll_loop_cases [of hits c t sid k w])
    case stop
    with less.prems have "res = Inr (sid, k)" "w' = w" by simp_all
    with stop show ?thesis by (cases hits) auto
  next
    case (abort e w1)
    with less.prems have "res = Inl e" "w' = w1" by simp_all
    with abort(3) show ?thesis by auto
  next
    case (step hs body resp w1 sid1 hits1 w2 rp r)
    from less.prems step have "scroll_loop c t sid1 hits1 (k + int (length hs)) w2 = (res, w')"
      by simp
    from less.hyps [OF step(11) this] obtain new where
      new: "exchanges w' = exchanges w2 @ new" "close_count c new = 0" "bulk_followed c new"
      "case res of
         Inr p \<Rightarrow> docs_returned new + hits_count hits1 = snd p - (k + int (length hs))
                  \<and> docs_sent new = snd p - (k + int (length hs))
                  \<and> fst p = (case last_scroll_id new of None \<Rightarrow> sid1 | Some x \<Rightarrow> x)
       | Inl e \<Rightarrow> True"
      by blast
    let ?new = "[(bulk_request c body, Responds resp), (scroll_request c sid, rp)] @ new"
    have "exchanges w' = exchanges w @ ?new"
      using new(1) step(8) by simp
    moreover have "close_count c ?new = 0"
      using new(2) by simp
    moreover have "bulk_followed c ?new"
      using new(3) by (intro bulk_followed_append) simp_all
    moreover have "case res of
           Inr p \<Rightarrow> docs_returned ?new + hits_count hits = snd p - k \<and> docs_sent ?new = snd p - k
                    \<and> fst p = (case last_scroll_id ?new of None \<Rightarrow> sid | Some x \<Rightarrow> x)
         | Inl e \<Rightarrow> True"
      using new(4) step(1,4,9,10) read_page_size [OF step(10)]
      by (auto simp: last_scroll_id_append split: sum.splits option.splits)
    ultimately show ?thesis by blast
  qed
qed

section \<open>The requests of reindex_data\<close>

lemma exchanges_since_append:
  "exchanges w' = exchanges w @ new \<Longrightarrow> exchanges_since w w' = new"
  by (simp add: exchanges_since_def)

lemma open_session_log:
  assumes "send (open_request c s) w = (Inr resp, w1)"
  shows "exchanges w1 = exchanges w @ [(open_request c s, Responds resp)]"
  using send_log [OF assms] by auto

lemma reindex_data_loop_abort:
  assumes "send (open_request c s) w = (Inr resp, w1)" "read_page resp = Inr (sid, hits)"
    and "scroll_loop c t sid hits 0 w1 = (Inl e, w2)"
  shows "reindex_data c s t w = (Inl e, w2) \<and> close_count c (exchanges_since w w2) = 0
       \<and> bulk_followed c (exchanges_since w w2)
       \<and> exchanges w2 = exchanges w @ exchanges_since w w2"
proof -
  from scroll_loop_log [OF assms(3)] obtain new where
    new: "exchanges w2 = exchanges w1 @ new" "close_count c new = 0" "bulk_followed c new"
    by blast
  with open_session_log [OF assms(1)]
  have ex: "exchanges w2 = exchanges w @ ([(open_request c s, Responds resp)] @ new)"
    by simp
  from exchanges_since_append [OF this]
  have e: "exchanges_since w w2 = [(open_request c s, Responds resp)] @ new" .
  have "close_count c (exchanges_since w w2) = 0"
    unfolding e using new(2) by simp
  moreover have "bulk_followed c (exchanges_since w w2)"
    unfolding e using new(3) by (intro bulk_followed_append) simp_all
  moreover have "reindex_data c s t w = (Inl e, w2)"
    using assms by (simp add: reindex_data_def)
  moreover have "exchanges w2 = exchanges w @ exchanges_since w w2"
    unfolding e using ex .
  ultimately show ?thesis by simp
qed

lemma reindex_data_loop_end:
  assumes "send (open_request c s) w = (Inr resp, w1)" "read_page resp = Inr (sid, hits)"
    and "scroll_loop c t sid hits 0 w1 = (Inr (sid', n), w2)"
  shows "\<exists>rp. exchanges_since w (snd (reindex_data c s t w))
            = (open_request c s, Responds resp) # exchanges_since w1 w2 @ [(close_request c sid', rp)]
          \<and> exchanges (snd (reindex_data c s t w))
            = exchanges w @ exchanges_since w (snd (reindex_data c s t w))
          \<and> close_count c (exchanges_since w1 w2) = 0
          \<and> bulk_followed c (exchanges_since w1 w2)
          \<and> docs_returned (exchanges_since w1 w2) + hits_count hits = n
          \<and> docs_sent (exchanges_since w1 w2) = n
          \<and> last_scroll_id ((open_request c s, Responds resp) # exchanges_since w1 w2) = Some sid'
          \<and> (case rp of
               Raises m \<Rightarrow> fst (reindex_data c s t w) = Inl (ConnectionError m)
             | Responds r \<Rightarrow> fst (reindex_data c s t w) = Inr n)"
proof -
  from scroll_loop_log [OF assms(3)] obtain new where
    new: "exchanges w2 = exchanges w1 @ new" "close_count c new = 0" "bulk_followed c new"
    "docs_returned new + hits_count hits = n" "docs_sent new = n"
    "sid' = (case last_scroll_id new of None \<Rightarrow> sid | Some x \<Rightarrow> x)"
    by auto
  obtain x w3 where s: "send (close_request c sid') w2 = (x, w3)"
    by force
  from send_log [OF s] obtain rp where
    rp: "exchanges w3 = exchanges w2 @ [(close_request c sid', rp)]"
    "case x of Inr r \<Rightarrow> rp = Responds r \<and> length (script w3) < length (script w2)
       | Inl e \<Rightarrow> \<exists>m. rp = Raises m \<and> e = ConnectionError m"
    by blast
  have r: "reindex_data c s t w = (case x of Inl e \<Rightarrow> (Inl e, w3) | Inr _ \<Rightarrow> (Inr n, w3))"
    using assms s by (simp add: reindex_data_def split: sum.splits)
  then have w3: "snd (reindex_data c s t w) = w3"
    by (cases x) simp_all
  have ex: "exchanges w3
          = exchanges w @ ((open_request c s, Responds resp) # new @ [(close_request c sid', rp)])"
    using rp(1) new(1) open_session_log [OF assms(1)] by simp
  from exchanges_since_append [OF this] exchanges_since_append [OF new(1)]
  have since: "exchanges_since w (snd (reindex_data c s t w))
          = (open_request c s, Responds resp) # exchanges_since w1 w2 @ [(close_request c sid', rp)]"
    using w3 by simp
  have "exchanges (snd (reindex_data c s t w))
            = exchanges w @ exchanges_since w (snd (reindex_data c s t w))"
    unfolding since using ex w3 exchanges_since_append [OF new(1)] by simp
  moreover have "case rp of
               Raises m \<Rightarrow> fst (reindex_data c s t w) = Inl (ConnectionError m)
             | Responds r \<Rightarrow> fst (reindex_data c s t w) = Inr n"
    using rp(2) r by (cases x) auto
  moreover have "last_scroll_id ((open_request c s, Responds resp) # new) = Some sid'"
    using new(6) assms(2) by (simp split: option.splits)
  ultimately show ?thesis
    using new since exchanges_since_append [OF new(1)] by auto
qed

text \<open>
  Claim C2, amended. Take a call of \<open>reindex_data\<close> whose open request is answered by a
  response from which the scroll id and the first page are read: the session is open.
  If the page loop is left by an exception, \<open>reindex_data\<close> raises that exception and
  its requests contain no release of the scroll. If the page loop ends on an empty page,
  the requests of the call contain exactly one release, it is the last request, and the
  scroll id it names is the one the loop ended with, which is the scroll id read from the
  last page reply among the requests before it.
\<close>

theorem close_request_only_after_the_loop:
  assumes "send (open_request c s) w = (Inr resp, w1)" and "read_page resp = Inr (sid, hits)"
  shows "(\<forall>e w2. scroll_loop c t sid hits 0 w1 = (Inl e, w2)
            \<longrightarrow> reindex_data c s t w = (Inl e, w2) \<and> close_count c (exchanges_since w w2) = 0)
       \<and> (\<forall>sid' n w2. scroll_loop c t sid hits 0 w1 = (Inr (sid', n), w2)
            \<longrightarrow> close_count c (exchanges_since w (snd (reindex_data c s t w))) = 1
              \<and> fst (last (exchanges_since w (snd (reindex_data c s t w)))) = close_request c sid'
              \<and> last_scroll_id (butlast (exchanges_since w (snd (reindex_data c s t w))))
                  = Some sid')"
proof (intro conjI allI impI)
  fix e w2
  assume "scroll_loop c t sid hits 0 w1 = (Inl e, w2)"
  from reindex_data_loop_abort [OF assms this]
  show "reindex_data c s t w = (Inl e, w2)" "close_count c (exchanges_since w w2) = 0"
    by simp_all
next
  fix sid' n w2
  assume "scroll_loop c t sid hits 0 w1 = (Inr (sid', n), w2)"
  from reindex_data_loop_end [OF assms this] obtain rp where
    since: "exchanges_since w (snd (reindex_data c s t w))
       = (open_request c s, Responds resp) # exchanges_since w1 w2 @ [(close_request c sid', rp)]"
    and "close_count c (exchanges_since w1 w2) = 0"
    and lsi: "last_scroll_id ((open_request c s, Responds resp) # exchanges_since w1 w2) = Some sid'"
    by blast
  then show "close_count c (exchanges_since w (snd (reindex_data c s t w))) = 1"
    "fst (last (exchanges_since w (snd (reindex_data c s t w)))) = close_request c sid'"
    by simp_all
  have "butlast (exchanges_since w (snd (reindex_data c s t w)))
          = (open_request c s, Responds resp) # exchanges_since w1 w2"
    unfolding since by (simp add: butlast_append)
  with lsi
  show "last_scroll_id (butlast (exchanges_since w (snd (reindex_data c s t w)))) = Some sid'"
    by simp
qed

section \<open>What a call of copy_index leaves in the record and in the statistics\<close>

lemma no_post_docs:
  "\<forall>x \<in> set xs. meth (fst x) \<noteq> POST \<Longrightarrow> docs_returned xs = 0 \<and> docs_sent xs = 0"
  by (induction xs) (simp_all add: docs_returned_def docs_sent_def is_scroll_post_def bulk_size_def)

lemma no_post_bulk_followed:
  "\<forall>x \<in> set xs. meth (fst x) \<noteq> POST \<Longrightarrow> bulk_followed c xs"
  by (rule bulk_followed_without_bulk) (simp add: rejected_bulk_def)

lemma get_source_index_info_log:
  assumes "get_source_index_info c i w = (res, w')"
  shows "\<exists>new. exchanges w' = exchanges w @ new \<and> (\<forall>x \<in> set new. meth (fst x) = GET)"
proof -
  obtain x w1 where s1: "send (settings_request c i) w = (x, w1)"
    by force
  from send_log [OF s1] obtain rp1 where
    rp1: "exchanges w1 = exchanges w @ [(settings_request c i, rp1)]"
    by blast
  obtain y w2 where s2: "send (mappings_request c i) w1 = (y, w2)"
    by force
  from send_log [OF s2] obtain rp2 where
    rp2: "exchanges w2 = exchanges w1 @ [(mappings_request c i, rp2)]"
    by blast
  from assms s1 s2 have "w' = w1 \<or> w' = w2"
    by (auto simp: get_source_index_info_def split: sum.splits)
  then show ?thesis
  proof
    assume "w' = w1"
    with rp1 have "exchanges w' = exchanges w @ [(settings_request c i, rp1)]
        \<and> (\<forall>x \<in> set [(settings_request c i, rp1)]. meth (fst x) = GET)"
      by (simp add: settings_request_def)
    then show ?thesis by blast
  next
    assume "w' = w2"
    with rp1 rp2
    have "exchanges w' = exchanges w @ [(settings_request c i, rp1), (mappings_request c i, rp2)]
        \<and> (\<forall>x \<in> set [(settings_request c i, rp1), (mappings_request c i, rp2)].
              meth (fst x) = GET)"
      by (simp add: settings_request_def mappings_request_def)
    then show ?thesis by blast
  qed
qed

lemma create_index_with_settings_log:
  assumes "create_index_with_settings c s t ss sm w = (res, w')"
  shows "\<exists>new. exchanges w' = exchanges w @ new \<and> (\<forall>x \<in> set new. meth (fst x) \<noteq> POST)"
proof -
  obtain x w1 where s1: "send (delete_index_request c t) w = (x, w1)"
    by force
  from send_log [OF s1] obtain rp1 where
    rp1: "exchanges w1 = exchanges w @ [(delete_index_request c t, rp1)]"
    by blast
  show ?thesis
  proof (cases "dest_settings (total_fields_limit c) ss")
    case (Inl e)
    with assms s1 have "w' = w1"
      by (simp add: create_index_with_settings_def)
    with rp1 have "exchanges w' = exchanges w @ [(delete_index_request c t, rp1)]
        \<and> (\<forall>x \<in> set [(delete_index_request c t, rp1)]. meth (fst x) \<noteq> POST)"
      by (simp add: delete_index_request_def)
    then show ?thesis by blast
  next
    case (Inr settings)
    obtain y w2 where s2: "send (create_index_request c t settings sm) w1 = (y, w2)"
      by force
    from send_log [OF s2] obtain rp2 where
      rp2: "exchanges w2 = exchanges w1 @ [(create_index_request c t settings sm, rp2)]"
      by blast
    from assms s1 s2 Inr have "w' = w2"
      by (auto simp: create_index_with_settings_def split: sum.splits)
    with rp1 rp2
    have "exchanges w' = exchanges w
             @ [(delete_index_request c t, rp1), (create_index_request c t settings sm, rp2)]
        \<and> (\<forall>x \<in> set [(delete_index_request c t, rp1), (create_index_request c t settings sm, rp2)].
              meth (fst x) \<noteq> POST)"
      by (simp add: delete_index_request_def create_index_request_def)
    then show ?thesis by blast
  qed
qed

lemma get_source_index_info_first_request:
  "\<exists>rp rest. exchanges (snd (get_source_index_info c i w))
      = exchanges w @ (settings_request c i, rp) # rest"
proof -
  obtain x w1 where s1: "send (settings_request c i) w = (x, w1)"
    by force
  from send_log [OF s1] obtain rp1 where
    rp1: "exchanges w1 = exchanges w @ [(settings_request c i, rp1)]"
    by blast
  obtain y w2 where s2: "send (mappings_request c i) w1 = (y, w2)"
    by force
  from send_log [OF s2] obtain rp2 where
    rp2: "exchanges w2 = exchanges w1 @ [(mappings_request c i, rp2)]"
    by blast
  from s1 s2 have "snd (get_source_index_info c i w) = w1 \<or> snd (get_source_index_info c i w) = w2"
    by (auto simp: get_source_index_info_def split: sum.splits)
  with rp1 rp2 show ?thesis by auto
qed

lemma reindex_data_log:
  assumes "reindex_data c s t w = (res, w')"
  shows "\<exists>new. exchanges w' = exchanges w @ new \<and> bulk_followed c new
          \<and> (case res of Inr n \<Rightarrow> docs_returned new = n \<and> docs_sent new = n | Inl e \<Rightarrow> True)"
proof -
  obtain x w1 where o: "send (open_request c s) w = (x, w1)"
    by force
  from send_log [OF o] obtain rp where
    rp: "exchanges w1 = exchanges w @ [(open_request c s, rp)]"
    by blast
  have early: ?thesis if "reindex_data c s t w = (Inl e, w1)" for e
  proof -
    from that assms have "res = Inl e" "w' = w1" by simp_all
    with rp have "exchanges w' = exchanges w @ [(open_request c s, rp)]
        \<and> bulk_followed c [(open_request c s, rp)]
        \<and> (case res of Inr n \<Rightarrow> docs_returned [(open_request c s, rp)] = n
                \<and> docs_sent [(open_request c s, rp)] = n | Inl e \<Rightarrow> True)"
      by simp
    then show ?thesis by blast
  qed
  show ?thesis
  proof (cases x)
    case (Inl e)
    with o have "reindex_data c s t w = (Inl e, w1)"
      by (simp add: reindex_data_def)
    then show ?thesis by (rule early)
  next
    case (Inr resp)
    with o have o': "send (open_request c s) w = (Inr resp, w1)" by simp
    show ?thesis
    proof (cases "read_page resp")
      case (Inl e)
      with o' have "reindex_data c s t w = (Inl e, w1)"
        by (simp add: reindex_data_def)
      then show ?thesis by (rule early)
    next
      case (Inr p)
      obtain sid hits where p: "read_page resp = Inr (sid, hits)"
        using Inr by (cases p) simp
      obtain lres w2 where l: "scroll_loop c t sid hits 0 w1 = (lres, w2)"
        by force
      show ?thesis
      proof (cases lres)
        case (Inl e)
        with l have l': "scroll_loop c t sid hits 0 w1 = (Inl e, w2)" by simp
        from reindex_data_loop_abort [OF o' p l'] assms
        have "res = Inl e" "w' = w2" "bulk_followed c (exchanges_since w w2)"
          "exchanges w2 = exchanges w @ exchanges_since w w2"
          by simp_all
        then have "exchanges w' = exchanges w @ exchanges_since w w2
            \<and> bulk_followed c (exchanges_since w w2)
            \<and> (case res of Inr n \<Rightarrow> docs_returned (exchanges_since w w2) = n
                    \<and> docs_sent (exchanges_since w w2) = n | Inl e \<Rightarrow> True)"
          by simp
        then show ?thesis by blast
      next
        case (Inr q)
        obtain sid' n where q: "q = (sid', n)" by (cases q)
        with Inr l have l': "scroll_loop c t sid hits 0 w1 = (Inr (sid', n), w2)" by simp
        from reindex_data_loop_end [OF o' p l'] obtain rp3 where
          since: "exchanges_since w (snd (reindex_data c s t w))
            = (open_request c s, Responds resp) # exchanges_since w1 w2 @ [(close_request c sid', rp3)]"
          and ex: "exchanges (snd (reindex_data c s t w))
            = exchanges w @ exchanges_since w (snd (reindex_data c s t w))"
          and bf: "bulk_followed c (exchanges_since w1 w2)"
          and dr: "docs_returned (exchanges_since w1 w2) + hits_count hits = n"
          and ds: "docs_sent (exchanges_since w1 w2) = n"
          and r: "case rp3 of
               Raises m \<Rightarrow> fst (reindex_data c s t w) = Inl (ConnectionError m)
             | Responds r \<Rightarrow> fst (reindex_data c s t w) = Inr n"
          by blast
        let ?new = "(open_request c s, Responds resp) # exchanges_since w1 w2 @ [(close_request c sid', rp3)]"
        from assms have w': "snd (reindex_data c s t w) = w'" and res: "fst (reindex_data c s t w) = res"
          by simp_all
        have "bulk_followed c ([(open_request c s, Responds resp)]
                 @ exchanges_since w1 w2 @ [(close_request c sid', rp3)])"
          using bf by (intro bulk_followed_append) simp_all
        then have "bulk_followed c ?new" by simp
        moreover have "exchanges w' = exchanges w @ ?new"
          using ex since w' by simp
        moreover have "case res of Inr n \<Rightarrow> docs_returned ?new = n \<and> docs_sent ?new = n
             | Inl e \<Rightarrow> True"
          using r res dr ds read_page_size [OF p] by (cases rp3) auto
        ultimately show ?thesis by blast
      qed
    qed
  qed
qed

lemma copy_steps_log:
  assumes "copy_steps c s t w = (res, w')"
  shows "\<exists>new. exchanges w' = exchanges w @ new \<and> new \<noteq> [] \<and> bulk_followed c new
          \<and> (case res of Inr n \<Rightarrow> docs_returned new = n \<and> docs_sent new = n | Inl e \<Rightarrow> True)"
proof -
  obtain g w1 where g: "get_source_index_info c s w = (g, w1)"
    by force
  from get_source_index_info_log [OF g] obtain new1 where
    n1: "exchanges w1 = exchanges w @ new1" "\<forall>x \<in> set new1. meth (fst x) = GET"
    by blast
  from get_source_index_info_first_request [of c s w] g n1(1) have ne: "new1 \<noteq> []"
    by auto
  from n1(2) have np1: "\<forall>x \<in> set new1. meth (fst x) \<noteq> POST"
    by simp
  note d1 = no_post_docs [OF np1] no_post_bulk_followed [OF np1, of c]
  show ?thesis
  proof (cases g)
    case (Inl e)
    with g assms have "res = Inl e" "w' = w1"
      by (simp_all add: copy_steps_def)
    with n1(1) ne d1 show ?thesis by auto
  next
    case (Inr sm)
    obtain settings mappings where sm: "sm = (settings, mappings)" by (cases sm)
    obtain cr w2 where cr: "create_index_with_settings c s t settings mappings w1 = (cr, w2)"
      by force
    from create_index_with_settings_log [OF cr] obtain new2 where
      n2: "exchanges w2 = exchanges w1 @ new2" "\<forall>x \<in> set new2. meth (fst x) \<noteq> POST"
      by blast
    note d2 = no_post_docs [OF n2(2)] no_post_bulk_followed [OF n2(2), of c]
    show ?thesis
    proof (cases cr)
      case (Inl e)
      with g Inr sm cr assms have "res = Inl e" "w' = w2"
        by (simp_all add: copy_steps_def)
      moreover have "exchanges w2 = exchanges w @ (new1 @ new2)"
        using n1(1) n2(1) by simp
      moreover have "bulk_followed c (new1 @ new2)"
        using d1 d2 by (intro bulk_followed_append) simp_all
      ultimately show ?thesis using ne by auto
    next
      case crr: (Inr j)
      with g Inr sm cr assms have r: "reindex_data c s t w2 = (res, w')"
        by (simp add: copy_steps_def)
      from reindex_data_log [OF r] obtain new3 where
        n3: "exchanges w' = exchanges w2 @ new3" "bulk_followed c new3"
        "case res of Inr n \<Rightarrow> docs_returned new3 = n \<and> docs_sent new3 = n | Inl e \<Rightarrow> True"
        by blast
      have "exchanges w' = exchanges w @ (new1 @ new2 @ new3)"
        using n1(1) n2(1) n3(1) by simp
      moreover have "bulk_followed c (new1 @ new2 @ new3)"
        using d1 d2 n3(2) by (intro bulk_followed_append) simp_all
      moreover have "case res of
            Inr n \<Rightarrow> docs_returned (new1 @ new2 @ new3) = n \<and> docs_sent (new1 @ new2 @ new3) = n
          | Inl e \<Rightarrow> True"
        using d1 d2 n3(3) by (auto split: sum.splits)
      ultimately show ?thesis using ne by blast
    qed
  qed
qed


text \<open>
  What the recorded count is in every call: when \<open>copy_index\<close> returns normally it has
  recorded one success and no failure, and the document count it has recorded is the
  number of documents in the pages the source returned during the call, and the number
  of documents the call sent in bulk requests.
\<close>

lemma copy_index_count_is_scroll_total:
  assumes "copy_index c s t st w = (Inr u, st', w')"
  shows "\<exists>n. successful_copies st' = successful_copies st @ [(s, t, n)]
            \<and> failed_copies st' = failed_copies st
            \<and> total_documents st' = total_documents st + n
            \<and> docs_returned (exchanges_since w w') = n
            \<and> docs_sent (exchanges_since w w') = n"
proof -
  from assms obtain n where c: "copy_steps c s t w = (Inr n, w')"
    and st': "st' = add_success s t n st"
    by (auto simp: copy_index_def split: prod.splits sum.splits)
  from copy_steps_log [OF c] obtain new where
    "exchanges w' = exchanges w @ new" "docs_returned new = n" "docs_sent new = n"
    by auto
  with exchanges_since_append [of w' w new]
  have "docs_returned (exchanges_since w w') = n \<and> docs_sent (exchanges_since w w') = n"
    by simp
  with st' show ?thesis
    by (simp add: add_success_def)
qed


section \<open>Concrete runs and the page loop after a bulk response\<close>

lemmas run_defs =
  example_copier_def plain_response_def json_response_def example_doc_def page_response_def
  fresh_world_def reindex_data_def send_def read_page_def raise_for_status_def response_json_def
  scroll_loop.simps build_bulk_body_def bulk_lines_def check_bulk_response_def fetch_page_def
  open_request_def scroll_request_def bulk_request_def close_request_def json_headers_def
  copy_index_def copy_steps_def get_source_index_info_def index_part_def settings_request_def
  mappings_request_def create_index_with_settings_def dest_settings_def source_total_fields_def
  index_setting_def field_limit_def limit_object_def delete_index_request_def
  create_index_request_def add_success_def add_failure_def init_statistics_def error_message_def

lemmas record_defs =
  close_count_def is_close_def exchanges_since_def docs_returned_def docs_sent_def
  is_scroll_post_def bulk_size_def page_size_def page_scroll_id_def is_next_page_def
  rejected_bulk_def

text \<open>
  Claim C2, as stated, fails. The source answers the open request with a page of one
  document, the destination accepts the bulk request, and the source answers the next
  page request with status 500: \<open>reindex_data\<close> raises the \<open>HTTPError\<close>, and the three
  requests it has made are the three \<open>POST\<close>s; the open session is never released.
\<close>

theorem scroll_not_released_on_abort:
  "fst (reindex_data example_copier ''a'' ''b''
          (fresh_world [Responds (page_response ''1'' [example_doc ''x'']),
                        Responds (json_response 200 (JObj [(''errors'', JBool False)])),
                        Responds (plain_response 500)]))
     = Inl (HTTPError (plain_response 500))
   \<and> map (\<lambda>x. meth (fst x))
        (exchanges (snd (reindex_data example_copier ''a'' ''b''
          (fresh_world [Responds (page_response ''1'' [example_doc ''x'']),
                        Responds (json_response 200 (JObj [(''errors'', JBool False)])),
                        Responds (plain_response 500)]))))
     = [POST, POST, POST]
   \<and> close_count example_copier
        (exchanges (snd (reindex_data example_copier ''a'' ''b''
          (fresh_world [Responds (page_response ''1'' [example_doc ''x'']),
                        Responds (json_response 200 (JObj [(''errors'', JBool False)])),
                        Responds (plain_response 500)]))))
     = 0"
  by (simp add: run_defs record_defs)

theorem close_request_witness:
  "send (open_request example_copier ''a'')
      (fresh_world [Responds (page_response ''1'' [example_doc ''x'']),
                    Responds (json_response 200 (JObj [(''errors'', JBool False)])),
                    Responds (page_response ''2'' []),
                    Responds (plain_response 200)])
     = (Inr (page_response ''1'' [example_doc ''x'']),
        \<lparr>script = [Responds (json_response 200 (JObj [(''errors'', JBool False)])),
                   Responds (page_response ''2'' []),
                   Responds (plain_response 200)],
          exchanges = [(open_request example_copier ''a'',
                        Responds (page_response ''1'' [example_doc ''x'']))]\<rparr>)
   \<and> read_page (page_response ''1'' [example_doc ''x''])
       = Inr (JStr ''1'', JArr [example_doc ''x''])
   \<and> fst (scroll_loop example_copier ''b'' (JStr ''1'') (JArr [example_doc ''x'']) 0
        \<lparr>script = [Responds (json_response 200 (JObj [(''errors'', JBool False)])),
                   Responds (page_response ''2'' []),
                   Responds (plain_response 200)],
          exchanges = [(open_request example_copier ''a'',
                        Responds (page_response ''1'' [example_doc ''x'']))]\<rparr>)
       = Inr (JStr ''2'', 1)
   \<and> close_count example_copier
        (exchanges_since
          (fresh_world [Responds (page_response ''1'' [example_doc ''x'']),
                        Responds (json_response 200 (JObj [(''errors'', JBool False)])),
                        Responds (page_response ''2'' []),
                        Responds (plain_response 200)])
          (snd (reindex_data example_copier ''a'' ''b''
             (fresh_world [Responds (page_response ''1'' [example_doc ''x'']),
                           Responds (json_response 200 (JObj [(''errors'', JBool False)])),
                           Responds (page_response ''2'' []),
                           Responds (plain_response 200)])))) = 1
   \<and> fst (last (exchanges_since
          (fresh_world [Responds (page_response ''1'' [example_doc ''x'']),
                        Responds (json_response 200 (JObj [(''errors'', JBool False)])),
                        Responds (page_response ''2'' []),
                        Responds (plain_response 200)])
          (snd (reindex_data example_copier ''a'' ''b''
             (fresh_world [Responds (page_response ''1'' [example_doc ''x'']),
                           Responds (json_response 200 (JObj [(''errors'', JBool False)])),
                           Responds (page_response ''2'' []),
                           Responds (plain_response 200)])))))
       = close_request example_copier (JStr ''2'')
   \<and> map (\<lambda>x. meth (fst x))
        (exchanges (snd (reindex_data example_copier ''a'' ''b''
             (fresh_world [Responds (page_response ''1'' [example_doc ''x'']),
                           Responds (json_response 200 (JObj [(''errors'', JBool False)])),
                           Responds (page_response ''2'' []),
                           Responds (plain_response 200)]))))
       = [POST, POST, POST, DELETE]"
proof -
  let ?w = "fresh_world [Responds (page_response ''1'' [example_doc ''x'']),
                    Responds (json_response 200 (JObj [(''errors'', JBool False)])),
                    Responds (page_response ''2'' []),
                    Responds (plain_response 200)]"
  let ?w1 = "\<lparr>script = [Responds (json_response 200 (JObj [(''errors'', JBool False)])),
                   Responds (page_response ''2'' []),
                   Responds (plain_response 200)],
          exchanges = [(open_request example_copier ''a'',
                        Responds (page_response ''1'' [example_doc ''x'']))]\<rparr>"
  have o: "send (open_request example_copier ''a'') ?w
             = (Inr (page_response ''1'' [example_doc ''x'']), ?w1)"
    by (simp add: send_def fresh_world_def)
  have p: "read_page (page_response ''1'' [example_doc ''x''])
             = Inr (JStr ''1'', JArr [example_doc ''x''])"
    by (simp add: run_defs)
  obtain w2 where
    l: "scroll_loop example_copier ''b'' (JStr ''1'') (JArr [example_doc ''x'']) 0 ?w1
          = (Inr (JStr ''2'', 1), w2)"
    by (simp add: run_defs)
  from close_request_only_after_the_loop [OF o p, of "''b''"] l
  have "close_count example_copier
          (exchanges_since ?w (snd (reindex_data example_copier ''a'' ''b'' ?w))) = 1"
    and "fst (last (exchanges_since ?w (snd (reindex_data example_copier ''a'' ''b'' ?w))))
          = close_request example_copier (JStr ''2'')"
    by blast+
  moreover have "map (\<lambda>x. meth (fst x))
        (exchanges (snd (reindex_data example_copier ''a'' ''b'' ?w))) = [POST, POST, POST, DELETE]"
    by (simp add: run_defs)
  ultimately show ?thesis using o p l by simp
qed

text \<open>
  Claim C3 on a run in which the destination answers the only bulk request with status
  500, so that no document is copied. \<open>reindex_data\<close> returns 1, and \<open>copy_index\<close> records
  a success with a count of one document and adds it to \<open>total_documents\<close>: the count is
  the number of documents read from the source, not the number copied.
\<close>

theorem success_with_rejected_bulk:
  "fst (reindex_data example_copier ''a'' ''b''
          (fresh_world [Responds (page_response ''1'' [example_doc ''x'']),
                        Responds (plain_response 500),
                        Responds (page_response ''2'' []),
                        Responds (plain_response 200)])) = Inr 1
   \<and> (case copy_index example_copier ''a'' ''b'' init_statistics
           (fresh_world (copy_replies
              [Responds (page_response ''1'' [example_doc ''x'']),
               Responds (plain_response 500),
               Responds (page_response ''2'' []),
               Responds (plain_response 200)])) of
      (res, st, w) \<Rightarrow>
        res = Inr () \<and> successful_copies st = [(''a'', ''b'', 1)] \<and> total_documents st = 1
        \<and> map snd (filter (\<lambda>x. 0 < bulk_size (fst x)) (exchanges w))
            = [Responds (plain_response 500)])"
  by (simp add: run_defs record_defs copy_replies_def)




lemma scroll_loop_continue:
  assumes "build_bulk_body t (JArr hs) = Inr body" "hs \<noteq> []"
    and "script w = Responds r # rest" "check_bulk_response r = Inr ()"
  shows "scroll_loop c t sid (JArr hs) k w
       = (case fetch_page c sid
                \<lparr>script = rest, exchanges = exchanges w @ [(bulk_request c body, Responds r)]\<rparr> of
            (Inl e, w2) \<Rightarrow> (Inl e, w2)
          | (Inr (sid', hits'), w2) \<Rightarrow> scroll_loop c t sid' hits' (k + int (length hs)) w2)"
  using assms by (simp add: scroll_loop.simps [of c t sid _ k w] send_def)

lemma fetch_page_request:
  "map fst (exchanges (snd (fetch_page c sid w))) = map fst (exchanges w) @ [scroll_request c sid]"
proof -
  obtain res w' where f: "fetch_page c sid w = (res, w')"
    by force
  from fetch_page_log [OF f] f show ?thesis by auto
qed

text \<open>
  Claim C8. A bulk response with a 2xx status whose body is an object with \<open>errors\<close> true
  does not end the page loop: the page is counted, the request for the next page is sent
  and the loop carries on from what that request gives.
\<close>

theorem loop_continues_after_bulk_item_errors:
  assumes "build_bulk_body t (JArr hs) = Inr body" "hs \<noteq> []"
    and "script w = Responds r # rest"
    and "200 \<le> status_code r" "status_code r < 300"
    and "resp_json r = Some (JObj kvs)" "map_of kvs ''errors'' = Some (JBool True)"
  shows "scroll_loop c t sid (JArr hs) k w
       = (case fetch_page c sid
                \<lparr>script = rest, exchanges = exchanges w @ [(bulk_request c body, Responds r)]\<rparr> of
            (Inl e, w2) \<Rightarrow> (Inl e, w2)
          | (Inr (sid', hits'), w2) \<Rightarrow> scroll_loop c t sid' hits' (k + int (length hs)) w2)
     \<and> map fst (exchanges (snd (fetch_page c sid
                \<lparr>script = rest, exchanges = exchanges w @ [(bulk_request c body, Responds r)]\<rparr>)))
       = map fst (exchanges w) @ [bulk_request c body, scroll_request c sid]"
proof -
  from assms(6,7) have "check_bulk_response r = Inr ()"
    by (simp add: check_bulk_response_def response_json_def)
  from scroll_loop_continue [OF assms(1-3) this] show ?thesis
    by (simp add: fetch_page_request)
qed

theorem bulk_item_errors_witness:
  "build_bulk_body ''b'' (JArr [example_doc ''x''])
     = Inr [JObj [(''index'', JObj [(''_index'', JStr ''b''), (''_id'', JStr ''x'')])],
            JObj [(''f'', JInt 1)]]
   \<and> resp_json (json_response 200 (JObj [(''errors'', JBool True)]))
       = Some (JObj [(''errors'', JBool True)])
   \<and> fst (scroll_loop example_copier ''b'' (JStr ''1'') (JArr [example_doc ''x'']) 0
        (fresh_world [Responds (json_response 200 (JObj [(''errors'', JBool True)])),
                      Responds (page_response ''2'' [])]))
     = Inr (JStr ''2'', 1)"
proof -
  let ?body = "[JObj [(''index'', JObj [(''_index'', JStr ''b''), (''_id'', JStr ''x'')])],
            JObj [(''f'', JInt 1)]]"
  let ?r = "json_response 200 (JObj [(''errors'', JBool True)])"
  let ?w = "fresh_world [Responds ?r, Responds (page_response ''2'' [])]"
  have b: "build_bulk_body ''b'' (JArr [example_doc ''x'']) = Inr ?body"
    by (simp add: build_bulk_body_def bulk_lines_def example_doc_def)
  have ne: "[example_doc ''x''] \<noteq> []"
    by simp
  have s: "script ?w = Responds ?r # [Responds (page_response ''2'' [])]"
    by (simp add: fresh_world_def)
  have lo: "200 \<le> status_code ?r" and hi: "status_code ?r < 300"
    by (simp_all add: json_response_def plain_response_def)
  have j: "resp_json ?r = Some (JObj [(''errors'', JBool True)])"
    by (simp add: json_response_def)
  have e: "map_of [(''errors'', JBool True)] ''errors'' = Some (JBool True)"
    by simp
  from loop_continues_after_bulk_item_errors [OF b ne s lo hi j e, of example_copier "JStr ''1''" 0]
  have "fst (scroll_loop example_copier ''b'' (JStr ''1'') (JArr [example_doc ''x'']) 0 ?w)
          = Inr (JStr ''2'', 1)"
    by (simp add: run_defs)
  with b j show ?thesis by simp
qed

section \<open>Delete, then create\<close>

text \<open>
  Claim C6, amended. Whatever the reply to the delete request is (an exception of the
  transport or a response of any status), \<open>create_index_with_settings\<close> goes on: it sends
  the create request, and what it returns depends on the reply to that request alone. A
  create response with a status from 400 to 599 raises an exception that carries the
  response, and the error message \<open>copy_index\<close> builds from it ends with the text of the
  response. A create response with any other status is not an error for
  \<open>raise_for_status\<close>: its body is parsed as JSON, and the call returns the parsed body
  if there is one and raises the JSON decoding error if there is none.
\<close>

theorem delete_reply_ignored_create_error_raised:
  assumes "dest_settings (total_fields_limit c) ss = Inr settings"
    and "script w = d # Responds r # rest"
  shows "create_index_with_settings c s t ss sm w
       = (if 400 \<le> status_code r \<and> status_code r < 600 then Inl (HTTPError r)
          else response_json r,
          \<lparr>script = rest,
            exchanges = exchanges w @ [(delete_index_request c t, d),
                                       (create_index_request c t settings sm, Responds r)]\<rparr>)
     \<and> (400 \<le> status_code r \<and> status_code r < 600 \<longrightarrow>
          (\<exists>e. fst (create_index_with_settings c s t ss sm w) = Inl e
             \<and> exn_response e = Some r
             \<and> error_message e = Inr (exn_str e @ nl @ ''Response: '' @ resp_text r)))
     \<and> (\<not> (400 \<le> status_code r \<and> status_code r < 600) \<longrightarrow>
          fst (create_index_with_settings c s t ss sm w)
            = (case resp_json r of None \<Rightarrow> Inl JSONDecodeError | Some j \<Rightarrow> Inr j))"
  using assms
  by (simp add: create_index_with_settings_def send_def raise_for_status_def error_message_def
      response_json_def)

text \<open>
  Claim C6, as stated, fails for the statuses outside 2xx that \<open>raise_for_status\<close> lets
  pass: a create response with status 300 and a JSON body is returned to the caller and
  nothing is raised. (\<open>requests\<close> follows a redirect only when the response names a
  location; any other response with a 3xx status reaches the caller as it is. The delete
  request, which the transport refuses here, is dropped as the claim says.)
\<close>

theorem create_redirect_status_not_raised:
  "create_index_with_settings example_copier ''a'' ''b'' (JObj []) (JObj [])
     (fresh_world [Raises ''refused'', Responds (json_response 300 (JObj [(''ok'', JBool True)]))])
   = (Inr (JObj [(''ok'', JBool True)]),
      \<lparr>script = [],
        exchanges =
          [(delete_index_request example_copier ''b'', Raises ''refused''),
           (create_index_request example_copier ''b''
              (JObj [(''index'', JObj [(''number_of_shards'', JStr ''1''),
                                       (''number_of_replicas'', JStr ''1'')])])
              (JObj []),
            Responds (json_response 300 (JObj [(''ok'', JBool True)])))]\<rparr>)"
  by (simp add: run_defs)

theorem create_error_witness:
  "dest_settings (total_fields_limit example_copier) (JObj [])
     = Inr (JObj [(''index'', JObj [(''number_of_shards'', JStr ''1''),
                                    (''number_of_replicas'', JStr ''1'')])])
   \<and> fst (create_index_with_settings example_copier ''a'' ''b'' (JObj []) (JObj [])
        (fresh_world [Raises ''refused'', Responds (plain_response 400)]))
     = Inl (HTTPError (plain_response 400))
   \<and> error_message (HTTPError (plain_response 400))
     = Inr (exn_str (HTTPError (plain_response 400)) @ nl @ ''Response: '' @ ''T'')"
proof -
  let ?settings = "JObj [(''index'', JObj [(''number_of_shards'', JStr ''1''),
                                    (''number_of_replicas'', JStr ''1'')])]"
  have d: "dest_settings (total_fields_limit example_copier) (JObj []) = Inr ?settings"
    by (simp add: run_defs)
  have s: "script (fresh_world [Raises ''refused'', Responds (plain_response 400)])
             = Raises ''refused'' # Responds (plain_response 400) # []"
    by (simp add: fresh_world_def)
  have st: "400 \<le> status_code (plain_response 400) \<and> status_code (plain_response 400) < 600"
    by (simp add: plain_response_def)
  from delete_reply_ignored_create_error_raised [OF d s, of "''a''" "''b''" "JObj []"] st
  obtain e where
    "create_index_with_settings example_copier ''a'' ''b'' (JObj []) (JObj [])
        (fresh_world [Raises ''refused'', Responds (plain_response 400)])
       = (Inl (HTTPError (plain_response 400)),
          \<lparr>script = [],
            exchanges = exchanges (fresh_world [Raises ''refused'', Responds (plain_response 400)])
              @ [(delete_index_request example_copier ''b'', Raises ''refused''),
                 (create_index_request example_copier ''b'' ?settings (JObj []),
                  Responds (plain_response 400))]\<rparr>)"
    "fst (create_index_with_settings example_copier ''a'' ''b'' (JObj []) (JObj [])
        (fresh_world [Raises ''refused'', Responds (plain_response 400)])) = Inl e"
    "error_message e
       = Inr (exn_str e @ nl @ ''Response: '' @ resp_text (plain_response 400))"
    by auto
  then show ?thesis using d by (auto simp: plain_response_def)
qed

section \<open>The field limit of the destination settings\<close>

lemma dest_settings_shape:
  assumes "dest_settings policy ss = Inr out"
  shows "\<exists>stf shards replicas.
    source_total_fields ss = Inr stf
    \<and> out = JObj [(''index'',
         JObj (case field_limit policy stf of
                 None \<Rightarrow> [(''number_of_shards'', shards), (''number_of_replicas'', replicas)]
               | Some l \<Rightarrow> [(''number_of_shards'', shards), (''number_of_replicas'', replicas),
                            (''mapping'', limit_object l)]))]"
  using assms by (auto simp: dest_settings_def Let_def split: sum.splits option.splits)

lemma dest_settings_limit:
  assumes "dest_settings policy ss = Inr out"
  shows "\<exists>stf. source_total_fields ss = Inr stf
     \<and> json_path [''index'', ''mapping'', ''total_fields'', ''limit''] out = field_limit policy stf
     \<and> (field_limit policy stf = None \<longrightarrow> json_path [''index'', ''mapping''] out = None)"
  using dest_settings_shape [OF assms] by (auto simp: limit_object_def split: option.splits)

lemma py_get_returns: "\<exists>v. py_get (JObj kvs) k d = Inr v"
  by (simp split: option.splits)

lemma dest_settings_returns:
  assumes idx: "py_get ss ''index'' (JObj []) = Inr (JObj ikvs)"
    and mp: "py_get (JObj ikvs) ''mapping'' (JObj []) = Inr (JObj m)"
  shows "\<exists>out. dest_settings policy ss = Inr out"
proof -
  obtain stf where "py_get (JObj m) ''total_fields.limit'' JNull = Inr stf"
    using py_get_returns by blast
  with idx mp have 1: "source_total_fields ss = Inr stf"
    by (simp add: source_total_fields_def)
  obtain sh where "py_get (JObj ikvs) ''number_of_shards'' (JStr ''1'') = Inr sh"
    using py_get_returns by blast
  with idx have 2: "index_setting ss ''number_of_shards'' = Inr sh"
    by (simp add: index_setting_def)
  obtain rp where "py_get (JObj ikvs) ''number_of_replicas'' (JStr ''1'') = Inr rp"
    using py_get_returns by blast
  with idx have 3: "index_setting ss ''number_of_replicas'' = Inr rp"
    by (simp add: index_setting_def)
  from 1 2 3 show ?thesis
    by (simp add: dest_settings_def Let_def)
qed

lemma field_limit_explicit:
  "0 < n \<Longrightarrow> field_limit (Some n) stf = Some (JInt n)"
  by (simp add: field_limit_def)

lemma field_limit_disabled:
  "field_limit None stf = None" "n \<le> 0 \<Longrightarrow> n \<noteq> - 1 \<Longrightarrow> field_limit (Some n) stf = None"
  by (simp_all add: field_limit_def)

lemma field_limit_use_source:
  "field_limit (Some (- 1)) stf = (if py_truthy stf then Some stf else None)"
  by (simp add: field_limit_def)

lemma written_limit_not_read_back:
  assumes "dest_settings policy ss = Inr (JObj [(''index'', idx)])"
  shows "source_total_fields (JObj [(''index'', idx)]) = Inr JNull"
  using dest_settings_shape [OF assms]
  by (auto simp: source_total_fields_def limit_object_def split: option.splits)

text \<open>
  Claim C4 on a source that declares a field limit. The source's settings hold the
  limit 5000 at \<open>index.mapping.total_fields.limit\<close>, in the nested layout in which this
  very function writes the limit for the destination. With the policy -1 (use the
  source's limit) the destination settings come out without any \<open>mapping\<close> entry: the
  limit is looked up under the single key \<open>total_fields.limit\<close> and not found.
\<close>

theorem declared_source_limit_not_copied:
  "dest_settings (Some (- 1))
     (JObj [(''index'',
        JObj [(''number_of_shards'', JStr ''3''),
              (''mapping'', JObj [(''total_fields'', JObj [(''limit'', JStr ''5000'')])])])])
   = Inr (JObj [(''index'',
        JObj [(''number_of_shards'', JStr ''3''), (''number_of_replicas'', JStr ''1'')])])"
  by (simp add: dest_settings_def source_total_fields_def index_setting_def field_limit_def)

section \<open>Recording failures\<close>

text \<open>
  The driver goes through the list whatever happens to a pair (and each call of
  \<open>get_source_index_info\<close> starts by asking for the settings of its index, see
  \<open>get_source_index_info_first_request\<close>).
\<close>

lemma copy_all_append:
  "copy_all c (ps @ qs) st w = (case copy_all c ps st w of (st1, w1) \<Rightarrow> copy_all c qs st1 w1)"
  by (induction ps arbitrary: st w) (auto split: prod.splits)

lemma copy_index_records_http_error:
  "copy_steps c s t w = (Inl (HTTPError r), w')
   \<Longrightarrow> copy_index c s t st w
       = (Inl (HTTPError r),
          add_failure s t (http_error_msg r @ nl @ ''Response: '' @ resp_text r) st, w')"
  by (simp add: copy_index_def error_message_def)

lemma copy_index_drops_transport_error:
  "copy_steps c s t w = (Inl (ConnectionError m), w')
   \<Longrightarrow> copy_index c s t st w
       = (Inl (AttributeError (squote @ ''NoneType'' @ squote @ '' object has no attribute ''
                               @ squote @ ''text'' @ squote)), st, w')"
  by (simp add: copy_index_def error_message_def)

lemma copy_all_statistics_times:
  "copy_all c pairs st w = (st', w')
   \<Longrightarrow> start_time st' = start_time st \<and> end_time st' = end_time st"
proof (induction pairs arbitrary: st w)
  case Nil
  then show ?case by simp
next
  case (Cons p ps)
  obtain s t where p: "p = (s, t)" by (cases p)
  obtain res st1 w1 where c: "copy_index c s t st w = (res, st1, w1)"
    by (cases "copy_index c s t st w") auto
  then have "start_time st1 = start_time st \<and> end_time st1 = end_time st"
    by (auto simp: copy_index_def add_success_def add_failure_def split: prod.splits sum.splits)
  moreover from Cons.prems p c have "copy_all c ps st1 w1 = (st', w')"
    by simp
  ultimately show ?case using Cons.IH by metis
qed

lemma main_copy_summary_returns: "\<exists>txt. fst (main_copy c pairs t0 t1 w) = Inr txt"
proof -
  obtain st w' where c: "copy_all c pairs (start t0 init_statistics) w = (st, w')"
    by force
  from copy_all_statistics_times [OF c] have "start_time st = Some t0"
    by (simp add: start_def)
  with c show ?thesis
    by (simp add: main_copy_def summary_def finish_def)
qed

text \<open>
  Claim C5 on a run of two pairs in which the transport raises on the first request for
  the first pair (the source is unreachable). The driver does go on to the second pair,
  which succeeds. But the failure of the first pair is not recorded: the handler of
  \<open>copy_index\<close> reads \<open>e.response.text\<close> although \<open>e.response\<close> is \<open>None\<close>, raises
  \<open>AttributeError\<close> and never reaches \<open>add_failure\<close>. The summary reports one success
  and no failure.
\<close>

theorem unreachable_source_failure_not_recorded:
  "(case main_copy example_copier [(''z'', ''z''), (''a'', ''b'')] 0 5
           (fresh_world (Raises ''Connection refused'' #
              copy_replies
                [Responds (page_response ''1'' [example_doc ''x'']),
                 Responds (json_response 200 (JObj [(''errors'', JBool False)])),
                 Responds (page_response ''2'' []),
                 Responds (plain_response 200)])) of
      (txt, st, w) \<Rightarrow>
        successful_copies st = [(''a'', ''b'', 1)] \<and> failed_copies st = []
        \<and> map (\<lambda>x. url (fst x)) (take 2 (exchanges w)) = [''s/z/_settings'', ''s/a/_settings'']
        \<and> txt = Inr (py_join nl
             [nl @ ''Copy Operation Summary:'',
              ''Duration: 0:00:00.000005'',
              ''Total Documents Copied: 1'',
              ''Successful Copies: 1'',
              ''Failed Copies: 0'',
              nl @ ''Successful Operations:'',
              ''  - a '' @ arrow @ '' b (1 documents)'']))"
  by code_simp

end
